theory Spec2Isabelle
  imports Complex_Main "HOL-Library.Word"
begin

unbundle bit_operations_syntax

section \<open>Data model\<close>

text \<open>
  The engine of \<^verbatim>\<open>stego_cli.cpp\<close>. A \<^verbatim>\<open>vector<unsigned char>\<close> is a list of
  bytes, a \<^verbatim>\<open>std::string\<close> and a \<^verbatim>\<open>char\<close> array are lists of characters, the
  fixed-width unsigned fields of the header are words. A \<^verbatim>\<open>size_t\<close> is a natural
  number: it is taken to be 64 bits wide, the sizes and offsets of the engine are bounded
  by the length of a vector held in memory, so that the sum of such an offset and a
  32-bit size does not wrap, and the only narrowing conversion, to \<^verbatim>\<open>uint32_t\<close>, is
  written out.
\<close>

type_synonym byte = "8 word"
type_synonym uint16 = "16 word"
type_synonym uint32 = "32 word"

subsection \<open>namespace Config\<close>

definition MIN_HOST_SIZE :: nat where
  "MIN_HOST_SIZE = 10240"

definition MAGIC_SIGNATURE :: uint32 where
  "MAGIC_SIGNATURE = 0x5354454E"

definition VERSION :: uint16 where
  "VERSION = 0x0001"

definition MAX_FILENAME_LENGTH :: nat where
  "MAX_FILENAME_LENGTH = 256"

text \<open>
  \<^verbatim>\<open>MAX_HIDDEN_SIZE_RATIO = 0.85\<close> is a \<^verbatim>\<open>double\<close>: the binary64 number nearest to
  0.85, which is \<open>7656119366529843 / 2 ^ 53\<close>. Its numerator:
\<close>

definition MAX_HIDDEN_SIZE_RATIO_mantissa :: nat where
  "MAX_HIDDEN_SIZE_RATIO_mantissa = 7656119366529843"

subsection \<open>Exceptions\<close>

text \<open>
  The three exception classes, each with its message. The last two values are no
  exceptions of the program, they mark undefined behaviour: \<open>OutOfBoundsRead\<close> a vector
  range that leaves the buffer, \<open>UnterminatedString\<close> the read of a C string that finds
  no NUL inside the object it starts in.
\<close>

datatype error =
    FileSizeException string
  | FileAccessException string
  | InvalidFormatException string
  | OutOfBoundsRead
  | UnterminatedString

subsection \<open>namespace Utils\<close>

text \<open>\<^verbatim>\<open>s.find_last_of(cs)\<close>: the last index of \<open>s\<close> holding a character of \<open>cs\<close>;
  \<open>None\<close> is \<^verbatim>\<open>string::npos\<close>.\<close>

fun find_last_of :: "string \<Rightarrow> string \<Rightarrow> nat option" where
  "find_last_of [] cs = None"
| "find_last_of (x # xs) cs =
     (case find_last_of xs cs of
        Some pos \<Rightarrow> Some (Suc pos)
      | None \<Rightarrow> if x \<in> set cs then Some 0 else None)"

definition extractFilename :: "string \<Rightarrow> string" where
  "extractFilename fullPath =
     (case find_last_of fullPath [CHR ''/'', CHR 0x5C] of
        None \<Rightarrow> fullPath
      | Some pos \<Rightarrow> drop (pos + 1) fullPath)"

text \<open>\<^verbatim>\<open>::tolower\<close> in the C locale: the 26 upper-case letters move, all else stays.\<close>

definition tolower :: "char \<Rightarrow> char" where
  "tolower c =
     (let n = (of_char c :: nat) in if 65 \<le> n \<and> n \<le> 90 then char_of (n + 32) else c)"

definition getExtension :: "string \<Rightarrow> string" where
  "getExtension fname =
     (case find_last_of fname [CHR ''.''] of
        None \<Rightarrow> []
      | Some pos \<Rightarrow> map tolower (drop pos fname))"

definition generateOutputFilename :: "string \<Rightarrow> string \<Rightarrow> string" where
  "generateOutputFilename userProvidedPath originalFilename =
     (if userProvidedPath = [] then ''extracted_'' @ originalFilename
      else
        let outputDotPos = find_last_of userProvidedPath [CHR ''.''];
            outputSlashPos = find_last_of userProvidedPath [CHR ''/'', CHR 0x5C];
            hasExtension =
              (case outputDotPos of
                 None \<Rightarrow> False
               | Some d \<Rightarrow> (case outputSlashPos of None \<Rightarrow> True | Some s \<Rightarrow> d > s))
        in if hasExtension then userProvidedPath
           else userProvidedPath @ getExtension originalFilename)"

subsection \<open>struct StegoHeader\<close>

record StegoHeader =
  magic :: uint32
  version :: uint16
  hiddenFileSize :: uint32
  filenameLength :: uint16
  filename :: "char list"
  checksum :: uint32

text \<open>
  The struct carries no packing directive, so its members sit at their natural alignment
  (a 4-byte integer at a multiple of 4, a 2-byte integer at a multiple of 2), as in the
  C++ ABIs of the 32- and 64-bit x86 and ARM platforms. \<open>align_up\<close> moves an offset to
  the next multiple of the alignment.
\<close>

definition align_up :: "nat \<Rightarrow> nat \<Rightarrow> nat" where
  "align_up off a = ((off + a - 1) div a) * a"

definition offset_magic :: nat where
  "offset_magic = 0"

definition offset_version :: nat where
  "offset_version = align_up (offset_magic + 4) 2"

definition offset_hiddenFileSize :: nat where
  "offset_hiddenFileSize = align_up (offset_version + 2) 4"

definition offset_filenameLength :: nat where
  "offset_filenameLength = align_up (offset_hiddenFileSize + 4) 2"

definition offset_filename :: nat where
  "offset_filename = align_up (offset_filenameLength + 2) 1"

definition offset_checksum :: nat where
  "offset_checksum = align_up (offset_filename + MAX_FILENAME_LENGTH) 4"

text \<open>\<^verbatim>\<open>sizeof(StegoHeader)\<close>: the end of the last member, rounded to the struct's
  alignment, 4.\<close>

definition sizeof_StegoHeader :: nat where
  "sizeof_StegoHeader = align_up (offset_checksum + 4) 4"

text \<open>The default constructor.\<close>

definition StegoHeader_init :: StegoHeader where
  "StegoHeader_init =
     \<lparr> magic = MAGIC_SIGNATURE, version = VERSION, hiddenFileSize = 0, filenameLength = 0,
       filename = replicate MAX_FILENAME_LENGTH (CHR 0x00), checksum = 0 \<rparr>"

text \<open>\<^verbatim>\<open>static_cast<unsigned char>(c)\<close> widened to \<^verbatim>\<open>uint32_t\<close>.\<close>

definition uchar32 :: "char \<Rightarrow> uint32" where
  "uchar32 c = of_nat (of_char c)"

definition calculateChecksum :: "StegoHeader \<Rightarrow> uint32" where
  "calculateChecksum h =
     foldl (\<lambda>sum c. sum + uchar32 c)
       (magic h + ucast (version h) + hiddenFileSize h + ucast (filenameLength h))
       (take (min (unat (filenameLength h)) MAX_FILENAME_LENGTH) (filename h))"

definition validate :: "StegoHeader \<Rightarrow> bool" where
  "validate h \<longleftrightarrow> magic h = MAGIC_SIGNATURE \<and> checksum h = calculateChecksum h"

subsection \<open>class UniversalSteganography: the header codec\<close>

text \<open>\<^verbatim>\<open>strncpy(dest, src, n)\<close>: the characters of the C string \<open>src\<close> up to its first
  NUL, at most \<open>n\<close> of them, then NULs up to \<open>n\<close>; the rest of \<open>dest\<close> stays.\<close>

definition strncpy :: "char list \<Rightarrow> char list \<Rightarrow> nat \<Rightarrow> char list" where
  "strncpy dest src n =
     (let copied = take n (takeWhile (\<lambda>c. c \<noteq> CHR 0x00) src)
      in copied @ replicate (n - length copied) (CHR 0x00) @ drop n dest)"

definition createHeader :: "string \<Rightarrow> nat \<Rightarrow> StegoHeader" where
  "createHeader hiddenFilename hiddenSize =
     (let header0 = StegoHeader_init \<lparr> hiddenFileSize := of_nat hiddenSize \<rparr>;
          fname = extractFilename hiddenFilename;
          header1 = header0 \<lparr> filenameLength :=
                       of_nat (min (length fname) (MAX_FILENAME_LENGTH - 1)) \<rparr>;
          header2 = header1 \<lparr> filename :=
                       strncpy (filename header1) fname (unat (filenameLength header1)) \<rparr>;
          header3 = header2 \<lparr> filename :=
                       (filename header2) [unat (filenameLength header2) := CHR 0x00] \<rparr>
      in header3 \<lparr> checksum := calculateChecksum header3 \<rparr>)"

text \<open>The object representation is little-endian.\<close>

definition le16 :: "uint16 \<Rightarrow> byte list" where
  "le16 w = [ucast w, ucast (drop_bit 8 w)]"

definition le32 :: "uint32 \<Rightarrow> byte list" where
  "le32 w = [ucast w, ucast (drop_bit 8 w), ucast (drop_bit 16 w), ucast (drop_bit 24 w)]"

definition rd16 :: "byte list \<Rightarrow> uint16" where
  "rd16 bs = ucast (bs ! 0) OR push_bit 8 (ucast (bs ! 1))"

definition rd32 :: "byte list \<Rightarrow> uint32" where
  "rd32 bs = ucast (bs ! 0) OR push_bit 8 (ucast (bs ! 1))
               OR push_bit 16 (ucast (bs ! 2)) OR push_bit 24 (ucast (bs ! 3))"

definition char_byte :: "char \<Rightarrow> byte" where
  "char_byte c = of_nat (of_char c)"

definition byte_char :: "byte \<Rightarrow> char" where
  "byte_char b = char_of (unat b)"

text \<open>
  \<^verbatim>\<open>serializeHeader\<close> copies the whole object, padding included. The two bytes after
  \<open>version\<close> and the two bytes after \<open>filename\<close> are never written by the program;
  their values \<open>pad1\<close> and \<open>pad2\<close> are whatever the memory held.
\<close>

definition serializeHeader :: "uint16 \<Rightarrow> uint16 \<Rightarrow> StegoHeader \<Rightarrow> byte list" where
  "serializeHeader pad1 pad2 header =
     le32 (magic header) @ le16 (version header) @ le16 pad1
     @ le32 (hiddenFileSize header) @ le16 (filenameLength header)
     @ map char_byte (filename header) @ le16 pad2 @ le32 (checksum header)"

definition deserializeHeader :: "byte list \<Rightarrow> error + StegoHeader" where
  "deserializeHeader buffer =
     (if length buffer < sizeof_StegoHeader
      then Inl (InvalidFormatException ''Invalid header size'')
      else Inr \<lparr> magic = rd32 (drop offset_magic buffer),
                 version = rd16 (drop offset_version buffer),
                 hiddenFileSize = rd32 (drop offset_hiddenFileSize buffer),
                 filenameLength = rd16 (drop offset_filenameLength buffer),
                 filename = map byte_char (take MAX_FILENAME_LENGTH (drop offset_filename buffer)),
                 checksum = rd32 (drop offset_checksum buffer) \<rparr>)"

subsection \<open>class FileValidator: the capacity policy\<close>

text \<open>
  Double-precision arithmetic on natural numbers. \<open>bit_length n\<close> is the number of
  binary digits of \<open>n\<close>. \<open>round_to_double n\<close> is the binary64 number nearest to \<open>n\<close>,
  ties to the even significand: \<open>n\<close> itself below \<open>2 ^ 53\<close>, else \<open>n\<close> rounded to its
  53 leading bits.
\<close>

fun bit_length :: "nat \<Rightarrow> nat" where
  "bit_length n = (if n = 0 then 0 else Suc (bit_length (n div 2)))"

definition round_to_double :: "nat \<Rightarrow> nat" where
  "round_to_double n =
     (if n < 2 ^ 53 then n
      else
        let k = bit_length n - 53; q = n div 2 ^ k; r = n mod 2 ^ k
        in if 2 * r > 2 ^ k \<or> (2 * r = 2 ^ k \<and> odd q) then (q + 1) * 2 ^ k else q * 2 ^ k)"

text \<open>
  \<^verbatim>\<open>static_cast<size_t>(hostSize * Config::MAX_HIDDEN_SIZE_RATIO)\<close>: \<open>hostSize\<close> is
  converted to a double, the product with \<open>mantissa / 2 ^ 53\<close> is rounded to a double
  (rounding commutes with the scaling by \<open>2 ^ 53\<close>), and the cast truncates.
\<close>

definition scaledHostSize :: "nat \<Rightarrow> nat" where
  "scaledHostSize hostSize =
     round_to_double (round_to_double hostSize * MAX_HIDDEN_SIZE_RATIO_mantissa) div 2 ^ 53"

text \<open>
  The messages of the first and the last exception end in sizes formatted by
  \<^verbatim>\<open>Utils::formatBytes\<close>; the first is the constant \<^verbatim>\<open>10.00 KB\<close>, of the last only the
  fixed first line is kept.
\<close>

definition validateAndCalculateMaxSize :: "nat \<Rightarrow> nat \<Rightarrow> error + nat" where
  "validateAndCalculateMaxSize hiddenSize hostSize =
     (if hostSize < MIN_HOST_SIZE
      then Inl (FileSizeException ''Host file too small. Minimum size: 10.00 KB'')
      else
        let maxHiddenSize = scaledHostSize hostSize;
            headerSize = sizeof_StegoHeader
        in if maxHiddenSize < headerSize
           then Inl (FileSizeException ''Host file too small to hide any data'')
           else
             let maxHiddenSize' = maxHiddenSize - headerSize
             in if hiddenSize > maxHiddenSize'
                then Inl (FileSizeException ''The file to hide exceeds the allowable size.'')
                else Inr maxHiddenSize')"

subsection \<open>The file system\<close>

text \<open>The files that can be opened for reading, with their bytes, the paths at which a
  file can be created, and the files whose read or write fails after the open.\<close>

record filesystem =
  contents :: "string \<Rightarrow> byte list option"
  creatable :: "string \<Rightarrow> bool"
  read_fails :: "string \<Rightarrow> bool"
  write_fails :: "string \<Rightarrow> bool"

definition fileExists :: "filesystem \<Rightarrow> string \<Rightarrow> bool" where
  "fileExists fs fname \<longleftrightarrow> contents fs fname \<noteq> None"

definition getFileSize :: "filesystem \<Rightarrow> string \<Rightarrow> nat" where
  "getFileSize fs fname = (case contents fs fname of Some d \<Rightarrow> length d | None \<Rightarrow> 0)"

definition validateFileAccess :: "filesystem \<Rightarrow> string \<Rightarrow> string \<Rightarrow> error + unit" where
  "validateFileAccess fs fname fileType =
     (if fname = [] then Inl (FileAccessException (fileType @ '' path cannot be empty''))
      else if \<not> fileExists fs fname
      then Inl (FileAccessException (fileType @ '' not found or not accessible: '' @ fname))
      else Inr ())"

definition readFile :: "filesystem \<Rightarrow> string \<Rightarrow> error + byte list" where
  "readFile fs fname =
     (case contents fs fname of
        None \<Rightarrow> Inl (FileAccessException (''Cannot open file for reading: '' @ fname))
      | Some d \<Rightarrow>
          if read_fails fs fname then Inl (FileAccessException (''Error reading file: '' @ fname))
          else Inr d)"

definition writeFile :: "filesystem \<Rightarrow> string \<Rightarrow> byte list \<Rightarrow> error + filesystem" where
  "writeFile fs fname d =
     (if \<not> creatable fs fname
      then Inl (FileAccessException (''Cannot create output file: '' @ fname))
      else if write_fails fs fname
      then Inl (FileAccessException (''Error writing to file: '' @ fname))
      else Inr (fs \<lparr> contents := (contents fs) (fname \<mapsto> d) \<rparr>))"

subsection \<open>class UniversalSteganography: embedding and extraction\<close>

text \<open>The vector built from the iterator range \<^verbatim>\<open>data.begin() + a\<close> to
  \<^verbatim>\<open>data.begin() + b\<close>; a range that leaves the buffer is marked.\<close>

definition slice :: "byte list \<Rightarrow> nat \<Rightarrow> nat \<Rightarrow> error + byte list" where
  "slice data a b =
     (if a \<le> b \<and> b \<le> length data then Inr (take (b - a) (drop a data))
      else Inl OutOfBoundsRead)"

text \<open>
  \<^verbatim>\<open>hideFile\<close>. The sizes come from \<^verbatim>\<open>stat\<close>, the bytes from \<^verbatim>\<open>readFile\<close>. The result
  is the file system after the write and the path printed as \<^verbatim>\<open>Output file:\<close>.
\<close>

definition hideFile ::
  "uint16 \<Rightarrow> uint16 \<Rightarrow> filesystem \<Rightarrow> string \<Rightarrow> string \<Rightarrow> string \<Rightarrow> error + filesystem \<times> string"
where
  "hideFile pad1 pad2 fs hiddenFilePath hostFilePath outputFilePath =
     (case validateFileAccess fs hiddenFilePath ''File to hide'' of Inl e \<Rightarrow> Inl e | Inr _ \<Rightarrow>
      case validateFileAccess fs hostFilePath ''Host file'' of Inl e \<Rightarrow> Inl e | Inr _ \<Rightarrow>
      let hiddenSize = getFileSize fs hiddenFilePath;
          hostSize = getFileSize fs hostFilePath
      in
      case validateAndCalculateMaxSize hiddenSize hostSize of Inl e \<Rightarrow> Inl e | Inr maxAllowed \<Rightarrow>
      case readFile fs hostFilePath of Inl e \<Rightarrow> Inl e | Inr hostData \<Rightarrow>
      case readFile fs hiddenFilePath of Inl e \<Rightarrow> Inl e | Inr hiddenData \<Rightarrow>
      let header = createHeader hiddenFilePath hiddenSize;
          headerData = serializeHeader pad1 pad2 header;
          output = hostData @ headerData @ hiddenData;
          finalOutputPath = generateOutputFilename outputFilePath (extractFilename hostFilePath)
      in
      case writeFile fs finalOutputPath output of Inl e \<Rightarrow> Inl e | Inr fs' \<Rightarrow>
      Inr (fs', finalOutputPath))"

text \<open>The backward search of \<^verbatim>\<open>extractFile\<close>: the loop
  \<^verbatim>\<open>for (size_t i = ...; i > 0; i--)\<close> from the index \<open>i\<close> on; \<open>Some i\<close> is
  \<^verbatim>\<open>found\<close> with \<^verbatim>\<open>headerOffset = i\<close>.\<close>

fun scan :: "byte list \<Rightarrow> nat \<Rightarrow> error + nat option" where
  "scan data 0 = Inr None"
| "scan data (Suc n) =
     (case slice data (Suc n) (Suc n + sizeof_StegoHeader) of Inl e \<Rightarrow> Inl e | Inr potentialHeader \<Rightarrow>
      case deserializeHeader potentialHeader of Inl e \<Rightarrow> Inl e | Inr header \<Rightarrow>
      if magic header = MAGIC_SIGNATURE \<and> validate header then Inr (Some (Suc n))
      else scan data n)"

text \<open>The window of \<^verbatim>\<open>sizeof(StegoHeader)\<close> bytes that starts at index \<open>i\<close>, and
  whether it holds a header that passes \<^verbatim>\<open>validate\<close>.\<close>

definition window :: "byte list \<Rightarrow> nat \<Rightarrow> byte list" where
  "window data i = take sizeof_StegoHeader (drop i data)"

definition probe :: "byte list \<Rightarrow> nat \<Rightarrow> bool" where
  "probe data i =
     (case deserializeHeader (window data i) of Inl e \<Rightarrow> False | Inr header \<Rightarrow> validate header)"

text \<open>
  \<^verbatim>\<open>header.filename\<close> is printed and converted to a \<^verbatim>\<open>std::string\<close> as a C
  string: the characters from the start of the name field up to the first NUL, wherever
  that is. \<open>name_memory\<close> is the memory the read can cross inside the header object,
  given the bytes the object was copied from: the name field, the two padding bytes
  after it and the checksum. \<open>c_str\<close> reads a C string in such a memory.
\<close>

definition name_memory :: "byte list \<Rightarrow> char list" where
  "name_memory headerData = map byte_char (drop offset_filename headerData)"

definition c_str :: "char list \<Rightarrow> error + string" where
  "c_str memory =
     (if CHR 0x00 \<in> set memory then Inr (takeWhile (\<lambda>c. c \<noteq> CHR 0x00) memory)
      else Inl UnterminatedString)"

text \<open>Steps 3 and 4 of \<^verbatim>\<open>extractFile\<close>, on the bytes read: the header found, its
  offset, and the hidden bytes.\<close>

definition extractHidden :: "byte list \<Rightarrow> error + nat \<times> StegoHeader \<times> byte list" where
  "extractHidden data =
     (if length data < sizeof_StegoHeader
      then Inl (InvalidFormatException ''File too small to contain hidden data'')
      else
        case scan data (length data - sizeof_StegoHeader) of Inl e \<Rightarrow> Inl e
        | Inr None \<Rightarrow> Inl (InvalidFormatException ''No hidden data found in file'')
        | Inr (Some headerOffset) \<Rightarrow>
        case slice data headerOffset (headerOffset + sizeof_StegoHeader) of Inl e \<Rightarrow> Inl e
        | Inr headerData \<Rightarrow>
        case deserializeHeader headerData of Inl e \<Rightarrow> Inl e | Inr header \<Rightarrow>
        if \<not> validate header then Inl (InvalidFormatException ''Invalid or corrupted header'')
        else
          let hiddenDataOffset = headerOffset + sizeof_StegoHeader
          in if hiddenDataOffset + unat (hiddenFileSize header) > length data
             then Inl (InvalidFormatException ''Corrupted file: size mismatch'')
             else
               case slice data hiddenDataOffset (hiddenDataOffset + unat (hiddenFileSize header))
               of Inl e \<Rightarrow> Inl e
               | Inr hiddenData \<Rightarrow> Inr (headerOffset, header, hiddenData))"

text \<open>\<^verbatim>\<open>extractFile\<close>: the file system after the write, the path printed as
  \<^verbatim>\<open>Extracted file:\<close> and the name printed as \<^verbatim>\<open>Original filename:\<close>. The header
  object holds the bytes of the window at \<open>headerOffset\<close>, from which it was copied.
  The program prints the name before the size test of \<open>extractHidden\<close>; the model reads
  it after, which only decides which failure is reported when both occur.\<close>

definition extractFile ::
  "filesystem \<Rightarrow> string \<Rightarrow> string \<Rightarrow> error + filesystem \<times> string \<times> string"
where
  "extractFile fs hostFilePath outputFilePath =
     (case validateFileAccess fs hostFilePath ''Stego file'' of Inl e \<Rightarrow> Inl e | Inr _ \<Rightarrow>
      case readFile fs hostFilePath of Inl e \<Rightarrow> Inl e | Inr data \<Rightarrow>
      case extractHidden data of Inl e \<Rightarrow> Inl e | Inr (headerOffset, header, hiddenData) \<Rightarrow>
      case c_str (name_memory (window data headerOffset)) of Inl e \<Rightarrow> Inl e
      | Inr originalName \<Rightarrow>
      let extractedFilename = generateOutputFilename outputFilePath originalName
      in
      case writeFile fs extractedFilename hiddenData of Inl e \<Rightarrow> Inl e | Inr fs' \<Rightarrow>
      Inr (fs', extractedFilename, originalName))"

subsection \<open>Example files\<close>

text \<open>A file of 275 bytes, and the scenario of a 20000-byte host of zero bytes with the
  5-byte payload \<^verbatim>\<open>hello\<close>.\<close>

definition small_file_fs :: filesystem where
  "small_file_fs =
     \<lparr> contents = [''f.bin'' \<mapsto> replicate 275 0], creatable = (\<lambda>p. True),
       read_fails = (\<lambda>p. False), write_fails = (\<lambda>p. False) \<rparr>"

definition hello :: "byte list" where
  "hello = [0x68, 0x65, 0x6C, 0x6C, 0x6F]"

definition scenario_fs :: filesystem where
  "scenario_fs =
     \<lparr> contents = [''host.bin'' \<mapsto> replicate 20000 0, ''hello.txt'' \<mapsto> hello],
       creatable = (\<lambda>p. True),
       read_fails = (\<lambda>p. False), write_fails = (\<lambda>p. False) \<rparr>"

definition scenario_stego :: "byte list" where
  "scenario_stego =
     replicate 20000 0 @ serializeHeader 0 0 (createHeader ''hello.txt'' 5) @ hello"

definition scenario_fs_embedded :: filesystem where
  "scenario_fs_embedded =
     scenario_fs \<lparr> contents := (contents scenario_fs) (''out.bin'' \<mapsto> scenario_stego) \<rparr>"


text \<open>A payload that is itself a serialized header, in a host of 10240 zero bytes.\<close>

definition decoy_payload :: "byte list" where
  "decoy_payload = serializeHeader 0 0 (createHeader ''decoy.txt'' 0)"

definition decoy_fs :: filesystem where
  "decoy_fs =
     \<lparr> contents = [''host.bin'' \<mapsto> replicate 10240 0, ''secret.bin'' \<mapsto> decoy_payload],
       creatable = (\<lambda>p. True),
       read_fails = (\<lambda>p. False), write_fails = (\<lambda>p. False) \<rparr>"

definition decoy_stego :: "byte list" where
  "decoy_stego =
     replicate 10240 0 @ serializeHeader 0 0 (createHeader ''secret.bin'' 276) @ decoy_payload"

definition decoy_fs_embedded :: filesystem where
  "decoy_fs_embedded =
     decoy_fs \<lparr> contents := (contents decoy_fs) (''out.bin'' \<mapsto> decoy_stego) \<rparr>"

definition decoy_fs_extracted :: filesystem where
  "decoy_fs_extracted =
     decoy_fs_embedded \<lparr> contents := (contents decoy_fs_embedded) (''back.bin'' \<mapsto> []) \<rparr>"

definition scenario_fs_extracted :: filesystem where
  "scenario_fs_extracted =
     scenario_fs_embedded \<lparr> contents := (contents scenario_fs_embedded) (''back.txt'' \<mapsto> hello) \<rparr>"




text \<open>A hidden file named \<^verbatim>\<open>NETS\<close> whose bytes 10 to 13 are the magic, in a host of
  10240 zero bytes.\<close>

definition nets_payload :: "byte list" where
  "nets_payload = map char_byte ''0123456789NETS''"

definition nets_stego :: "byte list" where
  "nets_stego = replicate 10240 0 @ serializeHeader 0 0 (createHeader ''NETS'' 14) @ nets_payload"

subsection \<open>The words of the specification on paths\<close>




section \<open>Properties\<close>

declare bit_length.simps [simp del]

lemma sizeof_StegoHeader_eq: "sizeof_StegoHeader = 276"
  by (simp add: sizeof_StegoHeader_def offset_checksum_def offset_filename_def
      offset_filenameLength_def offset_hiddenFileSize_def offset_version_def offset_magic_def
      align_up_def MAX_FILENAME_LENGTH_def)

lemma offsets:
  "offset_magic = 0" "offset_version = 4" "offset_hiddenFileSize = 8"
  "offset_filenameLength = 12" "offset_filename = 14" "offset_checksum = 272"
  by (simp_all add: offset_checksum_def offset_filename_def
      offset_filenameLength_def offset_hiddenFileSize_def offset_version_def offset_magic_def
      align_up_def MAX_FILENAME_LENGTH_def)

lemma rd32_le32: "rd32 (le32 w @ rest) = w"
proof (rule bit_word_eqI)
  fix n assume "n < LENGTH(32)"
  then show "bit (rd32 (le32 w @ rest)) n = bit w n"
    unfolding rd32_def le32_def
    by (cases "n < 8"; cases "n < 16"; cases "n < 24") (auto simp add: bit_simps not_less)
qed

lemma rd16_le16: "rd16 (le16 w @ rest) = w"
proof (rule bit_word_eqI)
  fix n assume "n < LENGTH(16)"
  then show "bit (rd16 (le16 w @ rest)) n = bit w n"
    unfolding rd16_def le16_def
    by (cases "n < 8") (auto simp add: bit_simps not_less)
qed

lemma byte_char_char_byte: "byte_char (char_byte c) = c"
  by (simp add: byte_char_def char_byte_def unat_of_nat)

lemma length_le16: "length (le16 w) = 2"
  by (simp add: le16_def)

lemma length_le32: "length (le32 w) = 4"
  by (simp add: le32_def)

lemma length_serializeHeader:
  "length (serializeHeader pad1 pad2 h) = 20 + length (filename h)"
  by (simp add: serializeHeader_def length_le16 length_le32)

lemma deserialize_serialize:
  assumes "length (filename h) = MAX_FILENAME_LENGTH"
  shows "deserializeHeader (serializeHeader pad1 pad2 h @ rest) = Inr h"
proof -
  have len: "length (filename h) = 256"
    using assms by (simp add: MAX_FILENAME_LENGTH_def)
  have m: "rd32 (drop offset_magic (serializeHeader pad1 pad2 h @ rest)) = magic h"
    by (simp add: offsets serializeHeader_def rd32_le32)
  have v: "rd16 (drop offset_version (serializeHeader pad1 pad2 h @ rest)) = version h"
    by (simp add: offsets serializeHeader_def length_le32 rd16_le16)
  have s: "rd32 (drop offset_hiddenFileSize (serializeHeader pad1 pad2 h @ rest))
             = hiddenFileSize h"
    by (simp add: offsets serializeHeader_def length_le32 length_le16 rd32_le32)
  have l: "rd16 (drop offset_filenameLength (serializeHeader pad1 pad2 h @ rest))
             = filenameLength h"
    by (simp add: offsets serializeHeader_def length_le32 length_le16 rd16_le16)
  have f: "map byte_char (take MAX_FILENAME_LENGTH
              (drop offset_filename (serializeHeader pad1 pad2 h @ rest))) = filename h"
    using len
    by (simp add: offsets serializeHeader_def length_le32 length_le16 MAX_FILENAME_LENGTH_def
        comp_def byte_char_char_byte)
  have c: "rd32 (drop offset_checksum (serializeHeader pad1 pad2 h @ rest)) = checksum h"
    using len
    by (simp add: offsets serializeHeader_def length_le32 length_le16 rd32_le32)
  show ?thesis
    unfolding deserializeHeader_def m v s l f c
    by (simp add: sizeof_StegoHeader_eq length_serializeHeader len)
qed


lemma length_filename_createHeader:
  "length (filename (createHeader p n)) = MAX_FILENAME_LENGTH"
  by (simp add: createHeader_def Let_def StegoHeader_init_def strncpy_def
      MAX_FILENAME_LENGTH_def unat_of_nat min_def)

lemma validate_createHeader: "validate (createHeader p n)"
  by (simp add: createHeader_def Let_def validate_def calculateChecksum_def StegoHeader_init_def)

lemma magic_createHeader: "magic (createHeader p n) = MAGIC_SIGNATURE"
  by (simp add: createHeader_def Let_def StegoHeader_init_def)

lemma hiddenFileSize_createHeader: "hiddenFileSize (createHeader p n) = of_nat n"
  by (simp add: createHeader_def Let_def StegoHeader_init_def)

lemma filenameLength_createHeader:
  "unat (filenameLength (createHeader p n)) = min (length (extractFilename p)) 255"
  by (simp add: createHeader_def Let_def StegoHeader_init_def MAX_FILENAME_LENGTH_def
      unat_of_nat min_def)

lemma slice_window:
  "i + sizeof_StegoHeader \<le> length data \<Longrightarrow>
     slice data i (i + sizeof_StegoHeader) = Inr (window data i)"
  by (simp add: slice_def window_def)

lemma length_window:
  "i + sizeof_StegoHeader \<le> length data \<Longrightarrow> length (window data i) = sizeof_StegoHeader"
  by (simp add: window_def)

lemma deserializeHeader_window:
  "i + sizeof_StegoHeader \<le> length data \<Longrightarrow> \<exists>h. deserializeHeader (window data i) = Inr h"
  by (simp add: deserializeHeader_def length_window)

lemma scan_step:
  assumes "Suc n + sizeof_StegoHeader \<le> length data"
  shows "scan data (Suc n) = (if probe data (Suc n) then Inr (Some (Suc n)) else scan data n)"
proof -
  obtain h where h: "deserializeHeader (window data (Suc n)) = Inr h"
    using deserializeHeader_window [OF assms] by blast
  have sl: "slice data (Suc n) (Suc n + sizeof_StegoHeader) = Inr (window data (Suc n))"
    using assms by (rule slice_window)
  show ?thesis
    by (simp only: scan.simps sl probe_def) (simp add: h validate_def)
qed

declare scan.simps(2) [simp del]

lemma scan_total:
  "n + sizeof_StegoHeader \<le> length data \<Longrightarrow> \<exists>r. scan data n = Inr r"
proof (induction n)
  case 0
  then show ?case by simp
next
  case (Suc n)
  then show ?case by (simp add: scan_step)
qed

lemma scan_Some_iff:
  "n + sizeof_StegoHeader \<le> length data \<Longrightarrow>
     scan data n = Inr (Some i) \<longleftrightarrow>
       1 \<le> i \<and> i \<le> n \<and> probe data i \<and> (\<forall>j. i < j \<and> j \<le> n \<longrightarrow> \<not> probe data j)"
proof (induction n)
  case 0
  then show ?case by simp
next
  case (Suc n)
  then have IH: "scan data n = Inr (Some i) \<longleftrightarrow>
       1 \<le> i \<and> i \<le> n \<and> probe data i \<and> (\<forall>j. i < j \<and> j \<le> n \<longrightarrow> \<not> probe data j)"
    by simp
  show ?case
  proof (cases "probe data (Suc n)")
    case True
    then have "scan data (Suc n) = Inr (Some (Suc n))"
      using Suc.prems by (simp add: scan_step)
    moreover have "(1 \<le> i \<and> i \<le> Suc n \<and> probe data i \<and>
        (\<forall>j. i < j \<and> j \<le> Suc n \<longrightarrow> \<not> probe data j)) \<longleftrightarrow> i = Suc n"
    proof
      assume a: "1 \<le> i \<and> i \<le> Suc n \<and> probe data i \<and>
        (\<forall>j. i < j \<and> j \<le> Suc n \<longrightarrow> \<not> probe data j)"
      then have "\<not> i < Suc n" using True by blast
      with a show "i = Suc n" by simp
    next
      assume "i = Suc n"
      then show "1 \<le> i \<and> i \<le> Suc n \<and> probe data i \<and>
        (\<forall>j. i < j \<and> j \<le> Suc n \<longrightarrow> \<not> probe data j)"
        using True by auto
    qed
    ultimately show ?thesis by auto
  next
    case False
    then have "scan data (Suc n) = scan data n"
      using Suc.prems by (simp add: scan_step)
    moreover have "(1 \<le> i \<and> i \<le> Suc n \<and> probe data i \<and>
        (\<forall>j. i < j \<and> j \<le> Suc n \<longrightarrow> \<not> probe data j)) \<longleftrightarrow>
      (1 \<le> i \<and> i \<le> n \<and> probe data i \<and> (\<forall>j. i < j \<and> j \<le> n \<longrightarrow> \<not> probe data j))"
      using False by (auto simp add: le_Suc_eq)
    ultimately show ?thesis using IH by simp
  qed
qed

lemma scan_None_iff:
  "n + sizeof_StegoHeader \<le> length data \<Longrightarrow>
     scan data n = Inr None \<longleftrightarrow> (\<forall>j. 1 \<le> j \<and> j \<le> n \<longrightarrow> \<not> probe data j)"
proof (induction n)
  case 0
  then show ?case by simp
next
  case (Suc n)
  then have IH: "scan data n = Inr None \<longleftrightarrow> (\<forall>j. 1 \<le> j \<and> j \<le> n \<longrightarrow> \<not> probe data j)"
    by simp
  show ?case
  proof (cases "probe data (Suc n)")
    case True
    then have "scan data (Suc n) = Inr (Some (Suc n))"
      using Suc.prems by (simp add: scan_step)
    then show ?thesis using True by auto
  next
    case False
    then have "scan data (Suc n) = scan data n"
      using Suc.prems by (simp add: scan_step)
    moreover have "(\<forall>j. 1 \<le> j \<and> j \<le> Suc n \<longrightarrow> \<not> probe data j) \<longleftrightarrow>
        (\<forall>j. 1 \<le> j \<and> j \<le> n \<longrightarrow> \<not> probe data j)"
      using False by (auto simp add: le_Suc_eq)
    ultimately show ?thesis using IH by simp
  qed
qed


lemma foldl_add_sum_list:
  "foldl (\<lambda>sum c. sum + f c) a xs = a + sum_list (map f xs)" for a :: "'a::comm_monoid_add"
  by (induction xs arbitrary: a) (simp_all add: add.assoc)

lemma calculateChecksum_sum:
  assumes "length (filename h) = MAX_FILENAME_LENGTH"
  shows "calculateChecksum h =
           magic h + ucast (version h) + hiddenFileSize h + ucast (filenameLength h)
           + sum_list (map uchar32 (take (unat (filenameLength h)) (filename h)))"
proof -
  have "take (min (unat (filenameLength h)) MAX_FILENAME_LENGTH) (filename h)
          = take (unat (filenameLength h)) (filename h)"
    using assms by (simp add: min_def)
  then show ?thesis
    by (simp add: calculateChecksum_def foldl_add_sum_list)
qed

lemma checksum_example: "checksum (createHeader ''dir/a.txt'' 5) = 1398032200"
  by (simp add: createHeader_def Let_def calculateChecksum_def StegoHeader_init_def
      extractFilename_def MAX_FILENAME_LENGTH_def strncpy_def uchar32_def MAGIC_SIGNATURE_def
      VERSION_def)

text \<open>
  C5. \<open>validate\<close> holds exactly when the magic is the constant and the stored checksum is
  magic + version + hiddenFileSize + filenameLength + the sum of the first
  \<open>filenameLength\<close> bytes of the file name, each an unsigned byte, in 32-bit arithmetic;
  and every header built by \<open>createHeader\<close> has a 256-byte name field and passes
  \<open>validate\<close>.
\<close>

theorem validate_iff_checksum_equation:
  assumes "length (filename h) = MAX_FILENAME_LENGTH"
  shows "(validate h \<longleftrightarrow>
            magic h = MAGIC_SIGNATURE \<and>
            checksum h =
              magic h + ucast (version h) + hiddenFileSize h + ucast (filenameLength h)
              + sum_list (map uchar32 (take (unat (filenameLength h)) (filename h))))
         \<and> length (filename (createHeader p n)) = MAX_FILENAME_LENGTH
         \<and> validate (createHeader p n)"
  using assms
  by (simp add: validate_def calculateChecksum_sum length_filename_createHeader
      validate_createHeader [unfolded validate_def])

theorem validate_iff_checksum_equation_witness:
  "length (filename (createHeader ''dir/a.txt'' 5)) = MAX_FILENAME_LENGTH
   \<and> magic (createHeader ''dir/a.txt'' 5) = MAGIC_SIGNATURE
   \<and> checksum (createHeader ''dir/a.txt'' 5) = 1398032200
   \<and> checksum (createHeader ''dir/a.txt'' 5) =
       magic (createHeader ''dir/a.txt'' 5) + ucast (version (createHeader ''dir/a.txt'' 5))
       + hiddenFileSize (createHeader ''dir/a.txt'' 5)
       + ucast (filenameLength (createHeader ''dir/a.txt'' 5))
       + sum_list (map uchar32 (take (unat (filenameLength (createHeader ''dir/a.txt'' 5)))
                                  (filename (createHeader ''dir/a.txt'' 5))))"
  using validate_iff_checksum_equation
          [of "createHeader ''dir/a.txt'' 5" "''dir/a.txt''" 5]
        length_filename_createHeader [of "''dir/a.txt''" 5]
        checksum_example
  by blast


lemma probe_deserialize:
  "probe data i \<longleftrightarrow> (\<exists>h. deserializeHeader (window data i) = Inr h \<and> validate h)"
  by (cases "deserializeHeader (window data i)") (simp_all add: probe_def)

lemma extractHidden_None:
  assumes "sizeof_StegoHeader \<le> length data"
      and "scan data (length data - sizeof_StegoHeader) = Inr None"
  shows "extractHidden data = Inl (InvalidFormatException ''No hidden data found in file'')"
  using assms by (simp add: extractHidden_def)

lemma slice_payload:
  "\<not> length data < a + n \<Longrightarrow> slice data a (a + n) = Inr (take n (drop a data))"
  by (simp add: slice_def)

lemma extractHidden_Some:
  assumes len: "sizeof_StegoHeader \<le> length data"
      and sc: "scan data (length data - sizeof_StegoHeader) = Inr (Some off)"
  shows "\<exists>h. deserializeHeader (window data off) = Inr h \<and> validate h
            \<and> 1 \<le> off \<and> off + sizeof_StegoHeader \<le> length data
            \<and> extractHidden data =
                (if length data < off + sizeof_StegoHeader + unat (hiddenFileSize h)
                 then Inl (InvalidFormatException ''Corrupted file: size mismatch'')
                 else Inr (off, h, take (unat (hiddenFileSize h))
                                     (drop (off + sizeof_StegoHeader) data)))"
proof -
  have n: "(length data - sizeof_StegoHeader) + sizeof_StegoHeader \<le> length data"
    using len by simp
  from scan_Some_iff [OF n, of off] sc
  have off: "1 \<le> off" "off \<le> length data - sizeof_StegoHeader" "probe data off"
    by simp_all
  then obtain h where h: "deserializeHeader (window data off) = Inr h" "validate h"
    by (auto simp add: probe_deserialize)
  have bound: "off + sizeof_StegoHeader \<le> length data"
    using off(2) len by simp
  have sl: "slice data off (off + sizeof_StegoHeader) = Inr (window data off)"
    using bound by (rule slice_window)
  have "extractHidden data =
          (if length data < off + sizeof_StegoHeader + unat (hiddenFileSize h)
           then Inl (InvalidFormatException ''Corrupted file: size mismatch'')
           else Inr (off, h, take (unat (hiddenFileSize h))
                               (drop (off + sizeof_StegoHeader) data)))"
    using len by (simp add: extractHidden_def sc sl h Let_def slice_payload)
  with h off(1) bound show ?thesis by blast
qed

lemma extractHidden_in_bounds: "extractHidden data \<noteq> Inl OutOfBoundsRead"
proof (cases "length data < sizeof_StegoHeader")
  case True
  then show ?thesis by (simp add: extractHidden_def)
next
  case False
  then have len: "sizeof_StegoHeader \<le> length data" by simp
  then have "(length data - sizeof_StegoHeader) + sizeof_StegoHeader \<le> length data" by simp
  from scan_total [OF this]
  obtain r where r: "scan data (length data - sizeof_StegoHeader) = Inr r" by blast
  show ?thesis
  proof (cases r)
    case None
    then show ?thesis using extractHidden_None [OF len] r by simp
  next
    case (Some off)
    then show ?thesis using extractHidden_Some [OF len, of off] r by (auto split: if_splits)
  qed
qed

text \<open>
  C8. The scan stops at an index only if the window there deserializes to a header whose
  magic is the constant and whose stored checksum equals the recomputed one; a window
  with the magic but another checksum is never the scan's result, nor the offset at
  which extraction reads its header.
\<close>

theorem scan_needs_magic_and_checksum:
  assumes "n + sizeof_StegoHeader \<le> length data"
  shows "(scan data n = Inr (Some i) \<longrightarrow>
            (\<exists>h. deserializeHeader (window data i) = Inr h
                 \<and> magic h = MAGIC_SIGNATURE \<and> checksum h = calculateChecksum h))
         \<and> (deserializeHeader (window data i) = Inr h' \<and> magic h' = MAGIC_SIGNATURE
              \<and> checksum h' \<noteq> calculateChecksum h' \<longrightarrow>
              scan data n \<noteq> Inr (Some i)
              \<and> (n = length data - sizeof_StegoHeader \<longrightarrow>
                   (\<forall>hd p. extractHidden data \<noteq> Inr (i, hd, p))))"
proof -
  have a: "scan data n = Inr (Some i) \<Longrightarrow>
            \<exists>h. deserializeHeader (window data i) = Inr h
                 \<and> magic h = MAGIC_SIGNATURE \<and> checksum h = calculateChecksum h"
    using scan_Some_iff [OF assms, of i] by (auto simp add: probe_deserialize validate_def)
  have b: "scan data n \<noteq> Inr (Some i)"
    if "deserializeHeader (window data i) = Inr h'" "checksum h' \<noteq> calculateChecksum h'"
    using a that by auto
  have c: "extractHidden data \<noteq> Inr (i, hd, p)"
    if h': "deserializeHeader (window data i) = Inr h'" "checksum h' \<noteq> calculateChecksum h'"
      and n: "n = length data - sizeof_StegoHeader" for hd p
  proof
    assume e: "extractHidden data = Inr (i, hd, p)"
    have len: "sizeof_StegoHeader \<le> length data"
      using e by (auto simp add: extractHidden_def split: if_splits)
    then have "(length data - sizeof_StegoHeader) + sizeof_StegoHeader \<le> length data" by simp
    from scan_total [OF this]
    obtain r where r: "scan data (length data - sizeof_StegoHeader) = Inr r" by blast
    show False
    proof (cases r)
      case None
      then show ?thesis using extractHidden_None [OF len] r e by simp
    next
      case (Some off)
      with extractHidden_Some [OF len, of off] r e have "off = i"
        by (auto split: if_splits)
      with Some r n b [OF h'] show ?thesis by simp
    qed
  qed
  show ?thesis using a b c by blast
qed

theorem scan_needs_magic_and_checksum_witness:
  "deserializeHeader
     (window (0 # serializeHeader 0 0
                    ((createHeader ''x'' 0) \<lparr> checksum := checksum (createHeader ''x'' 0) + 1 \<rparr>)) 1)
     = Inr ((createHeader ''x'' 0) \<lparr> checksum := checksum (createHeader ''x'' 0) + 1 \<rparr>)
   \<and> scan (0 # serializeHeader 0 0
                 ((createHeader ''x'' 0) \<lparr> checksum := checksum (createHeader ''x'' 0) + 1 \<rparr>)) 1
       \<noteq> Inr (Some 1)"
proof -
  define h where "h = (createHeader ''x'' 0) \<lparr> checksum := checksum (createHeader ''x'' 0) + 1 \<rparr>"
  define d where "d = 0 # serializeHeader 0 0 h"
  have lf: "length (filename h) = MAX_FILENAME_LENGTH"
    by (simp add: h_def length_filename_createHeader)
  have len: "1 + sizeof_StegoHeader \<le> length d"
    using lf by (simp add: d_def length_serializeHeader sizeof_StegoHeader_eq
        MAX_FILENAME_LENGTH_def)
  have w: "window d 1 = serializeHeader 0 0 h"
    using lf by (simp add: d_def window_def length_serializeHeader sizeof_StegoHeader_eq
        MAX_FILENAME_LENGTH_def)
  have des: "deserializeHeader (window d 1) = Inr h"
    unfolding w using deserialize_serialize [OF lf, of 0 0 "[]"] by simp
  have m: "magic h = MAGIC_SIGNATURE"
    by (simp add: h_def magic_createHeader)
  have "calculateChecksum h = checksum (createHeader ''x'' 0)"
    using validate_createHeader [of "''x''" 0]
    by (simp add: h_def validate_def calculateChecksum_def)
  then have c: "checksum h \<noteq> calculateChecksum h"
    by (simp add: h_def)
  from scan_needs_magic_and_checksum [OF len, of 1 h] des m c
  show ?thesis unfolding d_def h_def by blast
qed


lemma ucast_rd32: "(ucast (rd32 bs) :: byte) = bs ! 0"
proof (rule bit_word_eqI)
  fix n assume "n < LENGTH(8)"
  then show "bit (ucast (rd32 bs) :: byte) n = bit (bs ! 0) n"
    unfolding rd32_def by (auto simp add: bit_simps)
qed

lemma probe_first_byte:
  assumes "probe data i" and "i + sizeof_StegoHeader \<le> length data"
  shows "data ! i = 0x4E"
proof -
  from assms(1) obtain h where h: "deserializeHeader (window data i) = Inr h" "validate h"
    by (auto simp add: probe_deserialize)
  from h(1) have "magic h = rd32 (drop offset_magic (window data i))"
    by (auto simp add: deserializeHeader_def split: if_splits)
  then have "rd32 (window data i) = MAGIC_SIGNATURE"
    using h(2) by (simp add: validate_def offsets)
  then have "(ucast (rd32 (window data i)) :: byte) = ucast MAGIC_SIGNATURE"
    by simp
  then have "window data i ! 0 = 0x4E"
    by (simp add: ucast_rd32 MAGIC_SIGNATURE_def)
  then show ?thesis
    using assms(2) by (simp add: window_def sizeof_StegoHeader_eq)
qed

lemma window_at_header:
  assumes "length (filename h) = MAX_FILENAME_LENGTH"
  shows "window (pre @ serializeHeader pad1 pad2 h @ post) (length pre)
           = serializeHeader pad1 pad2 h"
  using assms
  by (simp add: window_def length_serializeHeader sizeof_StegoHeader_eq MAX_FILENAME_LENGTH_def)

lemma probe_at_header:
  assumes "length (filename h) = MAX_FILENAME_LENGTH" and "validate h"
  shows "probe (pre @ serializeHeader pad1 pad2 h @ post) (length pre)"
  unfolding probe_deserialize window_at_header [OF assms(1)]
  using deserialize_serialize [OF assms(1), of pad1 pad2 "[]"] assms(2) by simp

lemma serializeHeader_second_byte:
  "serializeHeader pad1 pad2 (createHeader p n) ! 1 = 0x45"
  by (simp add: serializeHeader_def le32_def magic_createHeader MAGIC_SIGNATURE_def drop_bit_eq_div)

text \<open>
  C3. On a buffer of at least \<open>sizeof_StegoHeader\<close> bytes the scan starts at
  \<open>length data - sizeof_StegoHeader\<close> and returns the largest index between 1 and
  there whose window holds a valid header; index 0 is never the result; and the
  extraction fails with "No hidden data found in file" exactly when no index from 1 to
  the start holds a valid header.
\<close>

theorem backward_scan:
  assumes "sizeof_StegoHeader \<le> length data"
  shows "(\<exists>r. scan data (length data - sizeof_StegoHeader) = Inr r)
       \<and> (scan data (length data - sizeof_StegoHeader) = Inr (Some i) \<longleftrightarrow>
            1 \<le> i \<and> i \<le> length data - sizeof_StegoHeader \<and> probe data i
            \<and> (\<forall>j. i < j \<and> j \<le> length data - sizeof_StegoHeader \<longrightarrow> \<not> probe data j))
       \<and> (extractHidden data = Inl (InvalidFormatException ''No hidden data found in file'') \<longleftrightarrow>
            (\<forall>j. 1 \<le> j \<and> j \<le> length data - sizeof_StegoHeader \<longrightarrow> \<not> probe data j))
       \<and> (\<forall>hd p. extractHidden data \<noteq> Inr (0, hd, p))"
proof -
  let ?n = "length data - sizeof_StegoHeader"
  have n: "?n + sizeof_StegoHeader \<le> length data"
    using assms by simp
  from scan_total [OF n] obtain r where r: "scan data ?n = Inr r" by blast
  have none: "extractHidden data = Inl (InvalidFormatException ''No hidden data found in file'')
                \<longleftrightarrow> scan data ?n = Inr None"
  proof (cases r)
    case None
    then show ?thesis using extractHidden_None [OF assms] r by simp
  next
    case (Some off)
    then show ?thesis using extractHidden_Some [OF assms, of off] r by (auto split: if_splits)
  qed
  have zero: "extractHidden data \<noteq> Inr (0, hd, p)" for hd p
  proof (cases r)
    case None
    then show ?thesis using extractHidden_None [OF assms] r by simp
  next
    case (Some off)
    then show ?thesis using extractHidden_Some [OF assms, of off] r by (auto split: if_splits)
  qed
  show ?thesis
    using r scan_Some_iff [OF n, of i] none scan_None_iff [OF n] zero by simp
qed

theorem backward_scan_witness:
  "sizeof_StegoHeader \<le> length (0 # serializeHeader 0 0 (createHeader ''x'' 0) @ [0])
   \<and> length (0 # serializeHeader 0 0 (createHeader ''x'' 0) @ [0]) - sizeof_StegoHeader = 2
   \<and> \<not> probe (0 # serializeHeader 0 0 (createHeader ''x'' 0) @ [0]) 2
   \<and> probe (0 # serializeHeader 0 0 (createHeader ''x'' 0) @ [0]) 1
   \<and> scan (0 # serializeHeader 0 0 (createHeader ''x'' 0) @ [0]) 2 = Inr (Some 1)"
proof -
  define d where "d = 0 # serializeHeader 0 0 (createHeader ''x'' 0) @ [0]"
  have len: "length d = 278"
    by (simp add: d_def length_serializeHeader length_filename_createHeader
        MAX_FILENAME_LENGTH_def)
  have p1: "probe d 1"
    using probe_at_header [OF length_filename_createHeader validate_createHeader,
        of "[0]" 0 0 "''x''" 0 "[0]"]
    by (simp add: d_def)
  have "d ! 2 = 0x45"
    using serializeHeader_second_byte [of 0 0 "''x''" 0]
    by (simp add: d_def nth_append length_serializeHeader length_filename_createHeader
        MAX_FILENAME_LENGTH_def numeral_2_eq_2)
  then have p2: "\<not> probe d 2"
    using probe_first_byte [of d 2] by (auto simp add: len sizeof_StegoHeader_eq)
  have le: "sizeof_StegoHeader \<le> length d"
    by (simp add: len sizeof_StegoHeader_eq)
  have n: "length d - sizeof_StegoHeader = 2"
    by (simp add: len sizeof_StegoHeader_eq)
  have "\<forall>j. 1 < j \<and> j \<le> 2 \<longrightarrow> \<not> probe d j"
    using p2 by (auto simp add: le_Suc_eq numeral_2_eq_2)
  with backward_scan [OF le, of 1] p1 have "scan d 2 = Inr (Some 1)"
    by (simp add: n)
  with le n p1 p2 show ?thesis unfolding d_def by blast
qed


lemma extractHidden_too_small_iff:
  "extractHidden data = Inl (InvalidFormatException ''File too small to contain hidden data'')
     \<longleftrightarrow> length data < sizeof_StegoHeader"
proof (cases "length data < sizeof_StegoHeader")
  case True
  then show ?thesis by (simp add: extractHidden_def)
next
  case False
  then have len: "sizeof_StegoHeader \<le> length data" by simp
  then have "(length data - sizeof_StegoHeader) + sizeof_StegoHeader \<le> length data" by simp
  from scan_total [OF this]
  obtain r where r: "scan data (length data - sizeof_StegoHeader) = Inr r" by blast
  show ?thesis
  proof (cases r)
    case None
    then show ?thesis using extractHidden_None [OF len] r False by simp
  next
    case (Some off)
    then show ?thesis
      using extractHidden_Some [OF len, of off] r False by (auto split: if_splits)
  qed
qed

lemma c_str_Inl: "c_str memory = Inl e \<Longrightarrow> e = UnterminatedString"
  by (auto simp add: c_str_def split: if_splits)

lemma extractFile_accessible:
  assumes "hostFilePath \<noteq> []" and "contents fs hostFilePath = Some data"
      and "\<not> read_fails fs hostFilePath"
  shows "extractFile fs hostFilePath outputFilePath =
           (case extractHidden data of
              Inl e \<Rightarrow> Inl e
            | Inr (headerOffset, header, hiddenData) \<Rightarrow>
                (case c_str (name_memory (window data headerOffset)) of
                   Inl e \<Rightarrow> Inl e
                 | Inr originalName \<Rightarrow>
                     (case writeFile fs (generateOutputFilename outputFilePath originalName)
                             hiddenData of
                        Inl e \<Rightarrow> Inl e
                      | Inr fs' \<Rightarrow>
                          Inr (fs', generateOutputFilename outputFilePath originalName,
                               originalName))))"
  using assms
  by (simp add: extractFile_def validateFileAccess_def fileExists_def readFile_def Let_def
      split: sum.splits prod.splits)

text \<open>
  C7, with the header width of the code. \<^verbatim>\<open>sizeof(StegoHeader)\<close> is 276, and the
  extraction of an accessible file fails with "File too small to contain hidden data"
  exactly when the file is shorter than that.
\<close>

theorem file_too_small_iff:
  assumes "hostFilePath \<noteq> []" and "contents fs hostFilePath = Some data"
      and "\<not> read_fails fs hostFilePath"
  shows "(extractFile fs hostFilePath outputFilePath
            = Inl (InvalidFormatException ''File too small to contain hidden data'')
          \<longleftrightarrow> length data < sizeof_StegoHeader)
       \<and> sizeof_StegoHeader = 276"
proof -
  have "extractFile fs hostFilePath outputFilePath
            = Inl (InvalidFormatException ''File too small to contain hidden data'')
        \<longleftrightarrow> extractHidden data
            = Inl (InvalidFormatException ''File too small to contain hidden data'')"
    unfolding extractFile_accessible [OF assms]
    by (auto simp add: writeFile_def dest: c_str_Inl split: sum.splits prod.splits if_splits)
  then show ?thesis
    by (simp add: extractHidden_too_small_iff sizeof_StegoHeader_eq)
qed

theorem file_too_small_iff_witness:
  "''f.bin'' \<noteq> [] \<and> contents small_file_fs ''f.bin'' = Some (replicate 275 0)
   \<and> \<not> read_fails small_file_fs ''f.bin''
   \<and> extractFile small_file_fs ''f.bin'' ''out.bin''
       = Inl (InvalidFormatException ''File too small to contain hidden data'')"
proof -
  have c: "contents small_file_fs ''f.bin'' = Some (replicate 275 0)"
    by (simp add: small_file_fs_def)
  have n: "''f.bin'' \<noteq> []" by simp
  have r: "\<not> read_fails small_file_fs ''f.bin''"
    by (simp add: small_file_fs_def)
  from file_too_small_iff [OF n c r, of "''out.bin''"] c r show ?thesis by simp
qed

theorem file_too_small_at_275_counterexample:
  "extractFile small_file_fs ''f.bin'' ''out.bin''
       = Inl (InvalidFormatException ''File too small to contain hidden data'')
   \<and> contents small_file_fs ''f.bin'' = Some (replicate 275 0)
   \<and> \<not> length (replicate 275 (0::byte)) < 272"
  by (simp add: extractFile_def validateFileAccess_def fileExists_def readFile_def
      small_file_fs_def extractHidden_def sizeof_StegoHeader_eq)

text \<open>
  C6. Once the scan has found a header at \<open>headerOffset\<close>: if
  \<open>headerOffset + sizeof_StegoHeader + hiddenFileSize\<close> exceeds the length of the data,
  the extraction fails with "Corrupted file: size mismatch"; otherwise the hidden data
  is the \<open>hiddenFileSize\<close> bytes that start at \<open>headerOffset + sizeof_StegoHeader\<close>,
  exactly that many. No range of the extraction leaves the buffer.
\<close>

theorem extract_size_check:
  assumes "sizeof_StegoHeader \<le> length data"
      and "scan data (length data - sizeof_StegoHeader) = Inr (Some headerOffset)"
      and "deserializeHeader (window data headerOffset) = Inr header"
  shows "(length data < headerOffset + sizeof_StegoHeader + unat (hiddenFileSize header) \<longrightarrow>
            extractHidden data = Inl (InvalidFormatException ''Corrupted file: size mismatch''))
       \<and> (headerOffset + sizeof_StegoHeader + unat (hiddenFileSize header) \<le> length data \<longrightarrow>
            extractHidden data =
              Inr (headerOffset, header,
                   take (unat (hiddenFileSize header))
                     (drop (headerOffset + sizeof_StegoHeader) data))
            \<and> length (take (unat (hiddenFileSize header))
                        (drop (headerOffset + sizeof_StegoHeader) data))
                = unat (hiddenFileSize header))
       \<and> extractHidden data \<noteq> Inl OutOfBoundsRead
       \<and> (\<exists>r. scan data (length data - sizeof_StegoHeader) = Inr r)"
  using extractHidden_Some [OF assms(1,2)] assms(2,3) extractHidden_in_bounds [of data]
  by auto

theorem extract_size_check_witness:
  "extractHidden (0 # serializeHeader 0 0 (createHeader ''x'' 5))
     = Inl (InvalidFormatException ''Corrupted file: size mismatch'')
   \<and> extractHidden (0 # serializeHeader 0 0 (createHeader ''x'' 2) @ [7, 9])
     = Inr (1, createHeader ''x'' 2, [7, 9])"
proof -
  have mismatch: "extractHidden (0 # serializeHeader 0 0 (createHeader ''x'' 5))
     = Inl (InvalidFormatException ''Corrupted file: size mismatch'')"
  proof -
    define d where "d = 0 # serializeHeader 0 0 (createHeader ''x'' 5)"
    have len: "length d = 277"
      by (simp add: d_def length_serializeHeader length_filename_createHeader
          MAX_FILENAME_LENGTH_def)
    have le: "sizeof_StegoHeader \<le> length d"
      by (simp add: len sizeof_StegoHeader_eq)
    have n: "length d - sizeof_StegoHeader = 1"
      by (simp add: len sizeof_StegoHeader_eq)
    have p: "probe d 1"
      using probe_at_header [OF length_filename_createHeader validate_createHeader,
          of "[0]" 0 0 "''x''" 5 "[]"]
      by (simp add: d_def)
    have sc: "scan d (length d - sizeof_StegoHeader) = Inr (Some 1)"
      unfolding n using p scan_Some_iff [of 1 d 1] by (auto simp add: len sizeof_StegoHeader_eq)
    have w: "deserializeHeader (window d 1) = Inr (createHeader ''x'' 5)"
      using window_at_header [OF length_filename_createHeader, of "[0]" 0 0 "''x''" 5 "[]"]
        deserialize_serialize [OF length_filename_createHeader, of 0 0 "''x''" 5 "[]"]
      by (simp add: d_def)
    have sz: "unat (hiddenFileSize (createHeader ''x'' 5)) = 5"
      by (simp add: hiddenFileSize_createHeader)
    from extract_size_check [OF le sc w] show ?thesis
      unfolding d_def [symmetric] by (simp add: sz len sizeof_StegoHeader_eq)
  qed
  have ok: "extractHidden (0 # serializeHeader 0 0 (createHeader ''x'' 2) @ [7, 9])
     = Inr (1, createHeader ''x'' 2, [7, 9])"
  proof -
    define d where "d = 0 # serializeHeader 0 0 (createHeader ''x'' 2) @ [7, 9]"
    have ls: "length (serializeHeader 0 0 (createHeader ''x'' 2)) = 276"
      by (simp add: length_serializeHeader length_filename_createHeader MAX_FILENAME_LENGTH_def)
    have len: "length d = 279"
      by (simp add: d_def ls)
    have le: "sizeof_StegoHeader \<le> length d"
      by (simp add: len sizeof_StegoHeader_eq)
    have n: "length d - sizeof_StegoHeader = 3"
      by (simp add: len sizeof_StegoHeader_eq)
    have p: "probe d 1"
      using probe_at_header [OF length_filename_createHeader validate_createHeader,
          of "[0]" 0 0 "''x''" 2 "[7, 9]"]
      by (simp add: d_def)
    have b2: "d ! 2 = 0x45"
      using serializeHeader_second_byte [of 0 0 "''x''" 2]
      by (simp add: d_def nth_append ls)
    have b3: "d ! 3 = 0x54"
      using ls
      by (simp add: d_def nth_append serializeHeader_def le32_def
          magic_createHeader MAGIC_SIGNATURE_def drop_bit_eq_div)
    have np: "\<forall>j. 1 < j \<and> j \<le> 3 \<longrightarrow> \<not> probe d j"
    proof (intro allI impI)
      fix j :: nat assume "1 < j \<and> j \<le> 3"
      then have "j = 2 \<or> j = 3" by auto
      then show "\<not> probe d j"
        using probe_first_byte [of d j] b2 b3 by (auto simp add: len sizeof_StegoHeader_eq)
    qed
    have sc: "scan d (length d - sizeof_StegoHeader) = Inr (Some 1)"
      unfolding n using p np scan_Some_iff [of 3 d 1] by (auto simp add: len sizeof_StegoHeader_eq)
    have w: "deserializeHeader (window d 1) = Inr (createHeader ''x'' 2)"
      using window_at_header [OF length_filename_createHeader, of "[0]" 0 0 "''x''" 2 "[7, 9]"]
        deserialize_serialize [OF length_filename_createHeader, of 0 0 "''x''" 2 "[]"]
      by (simp add: d_def)
    have sz: "unat (hiddenFileSize (createHeader ''x'' 2)) = 2"
      by (simp add: hiddenFileSize_createHeader)
    from extract_size_check [OF le sc w] show ?thesis
      unfolding d_def [symmetric] by (simp add: sz len sizeof_StegoHeader_eq d_def ls)
  qed
  from mismatch ok show ?thesis by blast
qed

lemma bit_length_bounds:
  "0 < n \<Longrightarrow> 2 ^ (bit_length n - 1) \<le> n \<and> n < 2 ^ bit_length n"
proof (induction n rule: bit_length.induct)
  case (1 n)
  show ?case
  proof (cases "n div 2 = 0")
    case True
    with 1 have "n = 1" by (simp add: div_eq_0_iff) 
    then show ?thesis
      by (simp add: bit_length.simps [of "Suc 0"] bit_length.simps [of 0])
  next
    case False
    with 1 have IH: "2 ^ (bit_length (n div 2) - 1) \<le> n div 2" "n div 2 < 2 ^ bit_length (n div 2)"
      by simp_all
    have pos: "0 < bit_length (n div 2)"
      using False by (simp add: bit_length.simps [of "n div 2"])
    have bl: "bit_length n = Suc (bit_length (n div 2))"
      using 1 by (simp add: bit_length.simps [of n])
    have "(2::nat) ^ (bit_length n - 1) = 2 * 2 ^ (bit_length (n div 2) - 1)"
      using pos by (simp add: bl power_Suc [symmetric] del: power_Suc)
    also have "\<dots> \<le> 2 * (n div 2)" using IH(1) by simp
    also have "\<dots> \<le> n" by simp
    finally have lo: "2 ^ (bit_length n - 1) \<le> n" .
    have "n < 2 * (n div 2) + 2" by presburger
    also have "\<dots> \<le> 2 * 2 ^ bit_length (n div 2)" using IH(2) by simp
    finally have hi: "n < 2 ^ bit_length n" by (simp add: bl)
    from lo hi show ?thesis by blast
  qed
qed

lemma bit_length_ge54:
  assumes "2 ^ 53 \<le> n"
  shows "54 \<le> bit_length n"
proof -
  have "0 < n" using assms by (simp add: Suc_le_eq [symmetric] del: One_nat_def) 
  then have "n < 2 ^ bit_length n" using bit_length_bounds by blast
  with assms have "(2::nat) ^ 53 < 2 ^ bit_length n" by (rule le_less_trans)
  then have "53 < bit_length n" by (simp only: power_strict_increasing_iff rel_simps)
  then show ?thesis by simp
qed

lemma round_to_double_window:
  assumes "2 ^ 53 \<le> n"
  shows "2 ^ (bit_length n - 53) * 2 ^ 52 \<le> n \<and> n < 2 ^ (bit_length n - 53) * 2 ^ 53"
proof -
  have pos: "0 < n" using assms by (simp add: Suc_le_eq [symmetric] del: One_nat_def)
  have ge: "54 \<le> bit_length n" using assms by (rule bit_length_ge54)
  have a: "bit_length n - 1 = (bit_length n - 53) + 52" using ge by simp
  have b: "bit_length n = (bit_length n - 53) + 53" using ge by simp
  from bit_length_bounds [OF pos]
  have "2 ^ ((bit_length n - 53) + 52) \<le> n" "n < 2 ^ ((bit_length n - 53) + 53)"
    using a b by simp_all
  then show ?thesis by (simp only: power_add)
qed

lemma round_to_double_choice:
  assumes "2 ^ 53 \<le> n"
  shows "round_to_double n = (n div 2 ^ (bit_length n - 53)) * 2 ^ (bit_length n - 53)
       \<or> round_to_double n = (n div 2 ^ (bit_length n - 53) + 1) * 2 ^ (bit_length n - 53)"
  using assms by (simp add: round_to_double_def Let_def)

lemma round_to_double_ge_floor:
  assumes "2 ^ 53 \<le> n"
  shows "(n div 2 ^ (bit_length n - 53)) * 2 ^ (bit_length n - 53) \<le> round_to_double n"
  using round_to_double_choice [OF assms] by auto

lemma round_to_double_le_ceil:
  assumes "2 ^ 53 \<le> n"
  shows "round_to_double n \<le> n + 2 ^ (bit_length n - 53)"
proof -
  let ?k = "bit_length n - 53"
  have fl: "(n div 2 ^ ?k) * 2 ^ ?k \<le> n"
    by simp
  from round_to_double_choice [OF assms] show ?thesis
  proof
    assume "round_to_double n = (n div 2 ^ ?k) * 2 ^ ?k"
    moreover have "(n div 2 ^ ?k) * 2 ^ ?k \<le> n + 2 ^ ?k"
      by (rule trans_le_add1) simp
    ultimately show ?thesis by simp
  next
    assume "round_to_double n = (n div 2 ^ ?k + 1) * 2 ^ ?k"
    then have "round_to_double n = (n div 2 ^ ?k) * 2 ^ ?k + 2 ^ ?k"
      by (simp only: add_mult_distrib mult_1)
    moreover have "(n div 2 ^ ?k) * 2 ^ ?k + 2 ^ ?k \<le> n + 2 ^ ?k"
      by (rule add_le_mono1) simp
    ultimately show ?thesis by simp
  qed
qed

lemma round_to_double_grid_lower:
  assumes "2 ^ 53 \<le> n" and "2 ^ (bit_length n - 53) dvd G" and "G \<le> n"
  shows "G \<le> round_to_double n"
proof -
  let ?k = "bit_length n - 53"
  from assms(2) obtain g where g: "G = 2 ^ ?k * g" by (auto simp add: dvd_def)
  have "g \<le> n div 2 ^ ?k"
    using assms(3) by (simp add: g less_eq_div_iff_mult_less_eq mult.commute)
  then have "g * 2 ^ ?k \<le> (n div 2 ^ ?k) * 2 ^ ?k"
    by (rule mult_le_mono1)
  also have "\<dots> \<le> round_to_double n"
    by (rule round_to_double_ge_floor [OF assms(1)])
  finally show ?thesis
    by (simp only: g mult.commute [of "2 ^ ?k" g])
qed

lemma round_to_double_pow2_lower:
  assumes "2 ^ m \<le> n"
  shows "2 ^ m \<le> round_to_double n"
proof (cases "n < 2 ^ 53")
  case True
  then show ?thesis using assms by (simp add: round_to_double_def)
next
  case False
  then have big: "2 ^ 53 \<le> n" by simp
  let ?k = "bit_length n - 53"
  from round_to_double_window [OF big]
  have "n < 2 ^ (?k + 53)" by (simp add: power_add)
  with assms have "(2::nat) ^ m < 2 ^ (?k + 53)" by (rule le_less_trans)
  then have "m < ?k + 53" by (simp only: power_strict_increasing_iff rel_simps)
  then have "?k \<le> m \<or> m < ?k" by auto
  then have "(2::nat) ^ ?k dvd 2 ^ m \<or> m < ?k" by (auto intro: le_imp_power_dvd)
  then show ?thesis
  proof
    assume "(2::nat) ^ ?k dvd 2 ^ m"
    then show ?thesis using round_to_double_grid_lower [OF big _ assms] by blast
  next
    assume "m < ?k"
    then have "(2::nat) ^ m \<le> 2 ^ ?k" by simp
    also have "\<dots> \<le> 2 ^ ?k * 2 ^ 52" by simp
    finally have "(2::nat) ^ m \<le> 2 ^ ?k * 2 ^ 52" .
    have "2 ^ ?k * 2 ^ 52 \<le> round_to_double n"
      using round_to_double_grid_lower [OF big, of "2 ^ ?k * 2 ^ 52"]
        round_to_double_window [OF big] by simp
    with \<open>(2::nat) ^ m \<le> 2 ^ ?k * 2 ^ 52\<close> show ?thesis
      by (rule le_trans)
  qed
qed

lemma scaledHostSize_lower:
  assumes "10240 \<le> hostSize"
  shows "4096 \<le> scaledHostSize hostSize"
proof -
  have "(2::nat) ^ 13 \<le> hostSize" using assms by simp
  then have a: "2 ^ 13 \<le> round_to_double hostSize" by (rule round_to_double_pow2_lower)
  have "(2::nat) ^ 65 = 2 ^ 13 * 2 ^ 52" by simp
  also have "\<dots> \<le> round_to_double hostSize * MAX_HIDDEN_SIZE_RATIO_mantissa"
    using a by (intro mult_le_mono) (simp_all add: MAX_HIDDEN_SIZE_RATIO_mantissa_def)
  finally have "2 ^ 65 \<le> round_to_double (round_to_double hostSize * MAX_HIDDEN_SIZE_RATIO_mantissa)"
    by (rule round_to_double_pow2_lower)
  then have "2 ^ 65 div 2 ^ 53 \<le> scaledHostSize hostSize"
    unfolding scaledHostSize_def by (rule div_le_mono)
  then show ?thesis by simp
qed

lemma round_to_double_grid_up:
  assumes big: "2 ^ 53 \<le> n"
      and dvd: "2 ^ (bit_length n - 53) dvd G"
      and le: "n \<le> G"
      and near: "2 * (G - n) < 2 ^ (bit_length n - 53)"
  shows "G \<le> round_to_double n"
proof (cases "n = G")
  case True
  then show ?thesis using round_to_double_grid_lower [OF big dvd] by simp
next
  case False
  let ?K = "(2::nat) ^ (bit_length n - 53)"
  from dvd obtain g where g: "G = ?K * g" by (auto simp add: dvd_def)
  have lt: "n < G" using le False by simp
  have "g \<noteq> 0" using lt g by (cases g) simp_all
  then obtain g' where g': "g = Suc g'" by (cases g) simp_all
  have G: "G = ?K * g' + ?K" by (simp add: g g')
  have lo: "?K * g' \<le> n" using near G by linarith
  have hi: "n < ?K * Suc g'" using lt G by simp
  have q: "n div ?K = g'" using lo hi by (rule div_nat_eqI)
  have "n mod ?K = n - (n div ?K) * ?K"
    by (simp only: minus_div_mult_eq_mod)
  then have r: "n mod ?K = n - ?K * g'"
    unfolding q by (simp only: mult.commute [of g'])
  have "?K < 2 * (n mod ?K)" using near G lo by (simp only: r) linarith
  then have "round_to_double n = (n div ?K + 1) * ?K"
    using big by (simp add: round_to_double_def Let_def)
  then have "round_to_double n = G"
    by (simp add: q G)
  then show ?thesis by simp
qed

lemma scaledHostSize_exact:
  assumes h: "hostSize < 2 ^ 48"
  shows "scaledHostSize hostSize = (17 * hostSize) div 20"
proof (cases "hostSize \<le> 1")
  case True
  then have "hostSize = 0 \<or> hostSize = 1" by auto
  then show ?thesis
  proof
    assume "hostSize = 0"
    then show ?thesis by (simp add: scaledHostSize_def round_to_double_def)
  next
    assume "hostSize = 1"
    then show ?thesis
      by (simp add: scaledHostSize_def round_to_double_def MAX_HIDDEN_SIZE_RATIO_mantissa_def)
  qed
next
  case False
  then have h2: "2 \<le> hostSize" by simp
  define P where "P = hostSize * 7656119366529843"
  define N where "N = (17 * hostSize) div 20"
  define \<rho> where "\<rho> = (17 * hostSize) mod 20"
  define K where "K = (2::nat) ^ (bit_length P - 53)"
  define G where "G = N * 2 ^ 53"
  have rh: "round_to_double hostSize = hostSize"
    using h by (simp add: round_to_double_def)
  have s: "scaledHostSize hostSize = round_to_double P div 2 ^ 53"
    by (simp add: scaledHostSize_def rh P_def MAX_HIDDEN_SIZE_RATIO_mantissa_def)
  have big: "2 ^ 53 \<le> P" using h2 by (simp add: P_def)
  have \<rho>: "\<rho> < 20" by (simp add: \<rho>_def)
  have split: "17 * hostSize = 20 * N + \<rho>" by (simp add: N_def \<rho>_def)
  have key: "20 * P + 4 * hostSize = 20 * G + \<rho> * 9007199254740992"
    using split by (simp add: P_def G_def)
  have hb: "hostSize < 281474976710656" using h by simp
  from round_to_double_window [OF big]
  have win: "K * 4503599627370496 \<le> P" "P < K * 9007199254740992"
    by (simp_all add: K_def)
  have Kb: "K < 562949953421312"
    using win(1) hb by (simp add: P_def)
  have "(2::nat) ^ (bit_length P - 53) < 2 ^ 49" using Kb by (simp add: K_def)
  then have k: "bit_length P - 53 < 49" by (simp only: power_strict_increasing_iff rel_simps)
  then have "(2::nat) ^ (bit_length P - 53) \<le> 2 ^ 48" by (intro power_increasing) simp_all
  then have Kb2: "K \<le> 281474976710656" by (simp add: K_def)
  from k have "(2::nat) ^ (bit_length P - 53) dvd 2 ^ 53" by (intro le_imp_power_dvd) simp
  then have dvd: "2 ^ (bit_length P - 53) dvd G" by (simp add: G_def)
  have upper: "round_to_double P < G + 9007199254740992"
  proof -
    have "round_to_double P \<le> P + K"
      using round_to_double_le_ceil [OF big] by (simp add: K_def)
    then show ?thesis using key \<rho> Kb2 by linarith
  qed
  have lower: "G \<le> round_to_double P"
  proof (cases "\<rho> = 0")
    case True
    have le: "P \<le> G" using key True by simp
    have "2 * (G - P) < K" using key True win(2) le P_def by linarith
    then have "2 * (G - P) < 2 ^ (bit_length P - 53)" by (simp add: K_def)
    with big dvd le show ?thesis by (rule round_to_double_grid_up)
  next
    case False
    then have "G \<le> P" using key hb by linarith
    with big dvd show ?thesis by (rule round_to_double_grid_lower)
  qed
  have "round_to_double P div 9007199254740992 = N"
    using lower upper by (intro div_nat_eqI) (simp_all add: G_def mult.commute)
  then show ?thesis by (simp add: s N_def)
qed

lemma floor_ratio: "nat \<lfloor>real h * 0.85\<rfloor> = (17 * h) div 20"
proof -
  have "real h * 0.85 = real (17 * h) / real 20" by simp
  then have "\<lfloor>real h * 0.85\<rfloor> = \<lfloor>real (17 * h) / real 20\<rfloor>" by (simp only:)
  also have "\<dots> = int ((17 * h) div 20)" by (rule floor_divide_of_nat_eq)
  finally show ?thesis by simp
qed

lemma validateAndCalculateMaxSize_large:
  assumes "MIN_HOST_SIZE \<le> hostSize"
  shows "validateAndCalculateMaxSize hiddenSize hostSize =
           (if scaledHostSize hostSize - sizeof_StegoHeader < hiddenSize
            then Inl (FileSizeException ''The file to hide exceeds the allowable size.'')
            else Inr (scaledHostSize hostSize - sizeof_StegoHeader))"
proof -
  have "10240 \<le> hostSize" using assms by (simp add: MIN_HOST_SIZE_def)
  then have "4096 \<le> scaledHostSize hostSize" by (rule scaledHostSize_lower)
  then have "\<not> scaledHostSize hostSize < sizeof_StegoHeader"
    by (simp add: sizeof_StegoHeader_eq)
  then show ?thesis
    using assms by (simp add: validateAndCalculateMaxSize_def Let_def)
qed

lemma validateAndCalculateMaxSize_not_no_room:
  "validateAndCalculateMaxSize hiddenSize hostSize
     \<noteq> Inl (FileSizeException ''Host file too small to hide any data'')"
proof (cases "hostSize < MIN_HOST_SIZE")
  case True
  then show ?thesis by (simp add: validateAndCalculateMaxSize_def)
next
  case False
  then have "MIN_HOST_SIZE \<le> hostSize" by simp
  then show ?thesis by (simp add: validateAndCalculateMaxSize_large)
qed

text \<open>
  C10. For a host of at least \<open>MIN_HOST_SIZE\<close> bytes the scaled size is never below
  \<^verbatim>\<open>sizeof(StegoHeader)\<close>, so neither \<open>validateAndCalculateMaxSize\<close> nor \<open>hideFile\<close>
  ever fails with "Host file too small to hide any data".
\<close>

theorem no_room_error_unreachable:
  "(MIN_HOST_SIZE \<le> hostSize \<longrightarrow> sizeof_StegoHeader \<le> scaledHostSize hostSize)
   \<and> validateAndCalculateMaxSize hiddenSize hostSize
         \<noteq> Inl (FileSizeException ''Host file too small to hide any data'')
   \<and> hideFile pad1 pad2 fs hiddenFilePath hostFilePath outputFilePath
         \<noteq> Inl (FileSizeException ''Host file too small to hide any data'')"
proof -
  have a: "sizeof_StegoHeader \<le> scaledHostSize hostSize" if "MIN_HOST_SIZE \<le> hostSize"
  proof -
    have "10240 \<le> hostSize" using that by (simp add: MIN_HOST_SIZE_def)
    then have "4096 \<le> scaledHostSize hostSize" by (rule scaledHostSize_lower)
    then show ?thesis by (simp add: sizeof_StegoHeader_eq)
  qed
  have c: "hideFile pad1 pad2 fs hiddenFilePath hostFilePath outputFilePath
         \<noteq> Inl (FileSizeException ''Host file too small to hide any data'')"
    using validateAndCalculateMaxSize_not_no_room
      [of "getFileSize fs hiddenFilePath" "getFileSize fs hostFilePath"]
    by (auto simp add: hideFile_def validateFileAccess_def readFile_def writeFile_def Let_def
        split: sum.splits option.splits if_splits)
  from a validateAndCalculateMaxSize_not_no_room c show ?thesis by blast
qed

theorem no_room_error_unreachable_witness:
  "MIN_HOST_SIZE \<le> 10240 \<and> scaledHostSize 10240 = 8704
   \<and> sizeof_StegoHeader \<le> scaledHostSize 10240"
proof -
  have m: "MIN_HOST_SIZE \<le> 10240" by (simp add: MIN_HOST_SIZE_def)
  have v: "scaledHostSize 10240 = 8704"
    by (simp add: scaledHostSize_def round_to_double_def MAX_HIDDEN_SIZE_RATIO_mantissa_def
        bit_length.simps Let_def)
  from no_room_error_unreachable [of 10240] m v show ?thesis by blast
qed

text \<open>
  C4, with the product as the code computes it. Below \<open>MIN_HOST_SIZE\<close> the validation
  fails with a \<open>FileSizeException\<close>. From there on the capacity is the double-precision
  product \<open>hostSize * 0.85\<close>, truncated, minus \<^verbatim>\<open>sizeof(StegoHeader)\<close>, which is 276; a
  hidden size above the capacity fails with a \<open>FileSizeException\<close>, a hidden size up to
  the capacity succeeds and returns the capacity. For every host below \<open>2 ^ 48\<close> bytes
  the truncated product is the floor of \<open>hostSize * 0.85\<close>.
\<close>

theorem capacity_boundary:
  "(hostSize < MIN_HOST_SIZE \<longrightarrow>
      validateAndCalculateMaxSize hiddenSize hostSize
        = Inl (FileSizeException ''Host file too small. Minimum size: 10.00 KB''))
   \<and> (MIN_HOST_SIZE \<le> hostSize \<longrightarrow>
        (hiddenSize \<le> scaledHostSize hostSize - sizeof_StegoHeader \<longrightarrow>
           validateAndCalculateMaxSize hiddenSize hostSize
             = Inr (scaledHostSize hostSize - sizeof_StegoHeader))
        \<and> (scaledHostSize hostSize - sizeof_StegoHeader < hiddenSize \<longrightarrow>
           validateAndCalculateMaxSize hiddenSize hostSize
             = Inl (FileSizeException ''The file to hide exceeds the allowable size.''))
        \<and> validateAndCalculateMaxSize (scaledHostSize hostSize - sizeof_StegoHeader) hostSize
             = Inr (scaledHostSize hostSize - sizeof_StegoHeader)
        \<and> validateAndCalculateMaxSize (scaledHostSize hostSize - sizeof_StegoHeader + 1) hostSize
             = Inl (FileSizeException ''The file to hide exceeds the allowable size.''))
   \<and> (hostSize < 2 ^ 48 \<longrightarrow> scaledHostSize hostSize = nat \<lfloor>real hostSize * 0.85\<rfloor>)
   \<and> sizeof_StegoHeader = 276"
proof -
  have a: "validateAndCalculateMaxSize hiddenSize hostSize
        = Inl (FileSizeException ''Host file too small. Minimum size: 10.00 KB'')"
    if "hostSize < MIN_HOST_SIZE"
    using that by (simp add: validateAndCalculateMaxSize_def)
  have b: "scaledHostSize hostSize = nat \<lfloor>real hostSize * 0.85\<rfloor>" if "hostSize < 2 ^ 48"
    using scaledHostSize_exact [OF that] by (simp only: floor_ratio)
  show ?thesis
    using a b validateAndCalculateMaxSize_large [of hostSize] sizeof_StegoHeader_eq
    by simp
qed

theorem capacity_boundary_witness:
  "MIN_HOST_SIZE \<le> 20000 \<and> (20000::nat) < 2 ^ 48
   \<and> scaledHostSize 20000 = nat \<lfloor>real 20000 * 0.85\<rfloor>
   \<and> scaledHostSize 20000 - sizeof_StegoHeader = 16724
   \<and> validateAndCalculateMaxSize 16724 20000 = Inr 16724
   \<and> validateAndCalculateMaxSize (16724 + 1) 20000
       = Inl (FileSizeException ''The file to hide exceeds the allowable size.'')
   \<and> 10239 < MIN_HOST_SIZE
   \<and> validateAndCalculateMaxSize 0 10239
       = Inl (FileSizeException ''Host file too small. Minimum size: 10.00 KB'')"
proof -
  have m: "MIN_HOST_SIZE \<le> 20000" "10239 < MIN_HOST_SIZE"
    by (simp_all add: MIN_HOST_SIZE_def)
  have l: "(20000::nat) < 2 ^ 48" by simp
  have s: "scaledHostSize 20000 - sizeof_StegoHeader = 16724"
    by (simp add: scaledHostSize_def round_to_double_def MAX_HIDDEN_SIZE_RATIO_mantissa_def
        bit_length.simps Let_def sizeof_StegoHeader_eq)
  from capacity_boundary [of 20000 16724] capacity_boundary [of 10239 0] m l s
  show ?thesis by simp
qed

theorem capacity_floor_counterexample:
  "MIN_HOST_SIZE \<le> 2251799813685267
   \<and> nat \<lfloor>real 2251799813685267 * 0.85\<rfloor> - sizeof_StegoHeader = 1914029841632200
   \<and> validateAndCalculateMaxSize (1914029841632200 + 1) 2251799813685267
       = Inr 1914029841632201"
proof -
  have f: "nat \<lfloor>real 2251799813685267 * 0.85\<rfloor> = 1914029841632476"
    by (simp only: floor_ratio)
  have s: "scaledHostSize 2251799813685267 = 1914029841632477"
    by (simp add: scaledHostSize_def round_to_double_def MAX_HIDDEN_SIZE_RATIO_mantissa_def
        bit_length.simps Let_def)
  have m: "MIN_HOST_SIZE \<le> 2251799813685267" by (simp add: MIN_HOST_SIZE_def)
  have "validateAndCalculateMaxSize (1914029841632200 + 1) 2251799813685267
       = Inr 1914029841632201"
    by (simp add: validateAndCalculateMaxSize_large [OF m] s sizeof_StegoHeader_eq)
  with f m show ?thesis by (simp add: sizeof_StegoHeader_eq)
qed

lemma validateAndCalculateMaxSize_Inr:
  "validateAndCalculateMaxSize hiddenSize hostSize = Inr cap \<longleftrightarrow>
     MIN_HOST_SIZE \<le> hostSize \<and> hiddenSize \<le> scaledHostSize hostSize - sizeof_StegoHeader
     \<and> cap = scaledHostSize hostSize - sizeof_StegoHeader"
proof (cases "hostSize < MIN_HOST_SIZE")
  case True
  then show ?thesis by (simp add: validateAndCalculateMaxSize_def)
next
  case False
  then have "MIN_HOST_SIZE \<le> hostSize" by simp
  then show ?thesis by (auto simp add: validateAndCalculateMaxSize_large)
qed

lemma hideFile_Inr_iff:
  "hideFile pad1 pad2 fs hiddenFilePath hostFilePath outputFilePath = Inr (fs', finalOutputPath)
   \<longleftrightarrow>
   (\<exists>hostData hiddenData.
        hiddenFilePath \<noteq> [] \<and> hostFilePath \<noteq> []
      \<and> contents fs hostFilePath = Some hostData
      \<and> contents fs hiddenFilePath = Some hiddenData
      \<and> \<not> read_fails fs hostFilePath \<and> \<not> read_fails fs hiddenFilePath
      \<and> MIN_HOST_SIZE \<le> length hostData
      \<and> length hiddenData \<le> scaledHostSize (length hostData) - sizeof_StegoHeader
      \<and> finalOutputPath = generateOutputFilename outputFilePath (extractFilename hostFilePath)
      \<and> creatable fs finalOutputPath \<and> \<not> write_fails fs finalOutputPath
      \<and> fs' = fs \<lparr> contents := (contents fs) (finalOutputPath \<mapsto>
                   hostData @ serializeHeader pad1 pad2
                                (createHeader hiddenFilePath (length hiddenData))
                   @ hiddenData) \<rparr>)"
proof (cases "validateAndCalculateMaxSize (getFileSize fs hiddenFilePath)
                (getFileSize fs hostFilePath)")
  case (Inl e)
  then have "\<not> (MIN_HOST_SIZE \<le> getFileSize fs hostFilePath
      \<and> getFileSize fs hiddenFilePath
           \<le> scaledHostSize (getFileSize fs hostFilePath) - sizeof_StegoHeader)"
    using validateAndCalculateMaxSize_Inr [of "getFileSize fs hiddenFilePath"
        "getFileSize fs hostFilePath"] by auto
  with Inl show ?thesis
    by (auto simp add: hideFile_def validateFileAccess_def fileExists_def getFileSize_def
        split: option.splits)
next
  case (Inr cap)
  then have ok: "MIN_HOST_SIZE \<le> getFileSize fs hostFilePath"
      "getFileSize fs hiddenFilePath
           \<le> scaledHostSize (getFileSize fs hostFilePath) - sizeof_StegoHeader"
    using validateAndCalculateMaxSize_Inr [of "getFileSize fs hiddenFilePath"
        "getFileSize fs hostFilePath" cap] by auto
  with Inr show ?thesis
    by (auto simp add: hideFile_def validateFileAccess_def fileExists_def getFileSize_def
        readFile_def writeFile_def Let_def split: option.splits if_splits)
qed

lemma scaledHostSize_20000: "scaledHostSize 20000 = 17000"
  by (simp add: scaledHostSize_def round_to_double_def MAX_HIDDEN_SIZE_RATIO_mantissa_def
      bit_length.simps Let_def)

lemma scaledHostSize_10240: "scaledHostSize 10240 = 8704"
  by (simp add: scaledHostSize_def round_to_double_def MAX_HIDDEN_SIZE_RATIO_mantissa_def
      bit_length.simps Let_def)

lemma length_serialized_created:
  "length (serializeHeader pad1 pad2 (createHeader p n)) = 276"
  by (simp add: length_serializeHeader length_filename_createHeader MAX_FILENAME_LENGTH_def)

lemma length_hello: "length hello = 5"
  by (simp add: hello_def)

lemma scenario_hideFile:
  "hideFile 0 0 scenario_fs ''hello.txt'' ''host.bin'' ''out.bin''
     = Inr (scenario_fs_embedded, ''out.bin'')"
  unfolding hideFile_Inr_iff
  by (simp add: scenario_fs_def scenario_fs_embedded_def scenario_stego_def length_hello
      MIN_HOST_SIZE_def scaledHostSize_20000 sizeof_StegoHeader_eq generateOutputFilename_def
      extractFilename_def)

lemma serializeHeader_padding:
  assumes "length (filename h) = MAX_FILENAME_LENGTH"
  shows "take 2 (drop 6 (serializeHeader pad1 pad2 h)) = le16 pad1
       \<and> take 2 (drop 270 (serializeHeader pad1 pad2 h)) = le16 pad2"
  using assms
  by (simp add: serializeHeader_def length_le32 length_le16 MAX_FILENAME_LENGTH_def)

text \<open>
  C2, with the header width of the code. The serialized header has 276 bytes: the 272
  bytes of the six fields and two pairs of padding bytes, at offsets 6 and 270. After a
  successful \<open>hideFile\<close> the output file holds the host bytes, the header and the hidden
  bytes, and its length is the host size plus 276 plus the hidden size.
\<close>

theorem embed_output_length:
  assumes "hideFile pad1 pad2 fs hiddenFilePath hostFilePath outputFilePath
             = Inr (fs', finalOutputPath)"
  shows "\<exists>hostData hiddenData output.
            contents fs hostFilePath = Some hostData
          \<and> contents fs hiddenFilePath = Some hiddenData
          \<and> contents fs' finalOutputPath = Some output
          \<and> output = hostData @ serializeHeader pad1 pad2
                                  (createHeader hiddenFilePath (length hiddenData)) @ hiddenData
          \<and> length (serializeHeader pad1 pad2 (createHeader hiddenFilePath (length hiddenData)))
              = 276
          \<and> take 2 (drop 6 (serializeHeader pad1 pad2
                                (createHeader hiddenFilePath (length hiddenData)))) = le16 pad1
          \<and> take 2 (drop 270 (serializeHeader pad1 pad2
                                  (createHeader hiddenFilePath (length hiddenData)))) = le16 pad2
          \<and> length output = length hostData + 276 + length hiddenData
          \<and> sizeof_StegoHeader = 276"
proof -
  from assms [unfolded hideFile_Inr_iff]
  obtain hostData hiddenData where
    h: "contents fs hostFilePath = Some hostData" "contents fs hiddenFilePath = Some hiddenData"
       "fs' = fs \<lparr> contents := (contents fs) (finalOutputPath \<mapsto>
                   hostData @ serializeHeader pad1 pad2
                                (createHeader hiddenFilePath (length hiddenData))
                   @ hiddenData) \<rparr>"
    by blast
  have "contents fs' finalOutputPath =
          Some (hostData @ serializeHeader pad1 pad2
                  (createHeader hiddenFilePath (length hiddenData)) @ hiddenData)"
    by (simp add: h(3))
  then show ?thesis
    using h(1,2) serializeHeader_padding [OF length_filename_createHeader]
    by (simp add: length_serialized_created sizeof_StegoHeader_eq)
qed

theorem embed_output_length_witness:
  "hideFile 0 0 scenario_fs ''hello.txt'' ''host.bin'' ''out.bin''
     = Inr (scenario_fs_embedded, ''out.bin'')
   \<and> contents scenario_fs ''host.bin'' = Some (replicate 20000 0)
   \<and> contents scenario_fs ''hello.txt'' = Some hello
   \<and> contents scenario_fs_embedded ''out.bin'' = Some scenario_stego
   \<and> length scenario_stego = 20000 + 276 + 5"
proof -
  have a: "contents scenario_fs ''host.bin'' = Some (replicate 20000 0)"
          "contents scenario_fs ''hello.txt'' = Some hello"
          "contents scenario_fs_embedded ''out.bin'' = Some scenario_stego"
    by (simp_all add: scenario_fs_def scenario_fs_embedded_def)
  from embed_output_length [OF scenario_hideFile] a
  have "length scenario_stego = 20000 + 276 + 5"
    by (auto simp add: length_hello)
  with scenario_hideFile a show ?thesis by blast
qed

theorem embed_output_length_counterexample:
  "hideFile 0 0 scenario_fs ''hello.txt'' ''host.bin'' ''out.bin''
     = Inr (scenario_fs_embedded, ''out.bin'')
   \<and> contents scenario_fs_embedded ''out.bin'' = Some scenario_stego
   \<and> length scenario_stego = 20281
   \<and> length scenario_stego \<noteq> 20000 + 272 + 5"
proof -
  have "contents scenario_fs_embedded ''out.bin'' = Some scenario_stego"
    by (simp add: scenario_fs_embedded_def)
  moreover have "length scenario_stego = 20281"
    by (simp add: scenario_stego_def length_serialized_created length_hello)
  ultimately show ?thesis using scenario_hideFile by simp
qed










lemma name_memory_serializeHeader:
  assumes "length (filename h) = MAX_FILENAME_LENGTH"
  shows "name_memory (serializeHeader pad1 pad2 h)
           = filename h @ map byte_char (le16 pad2 @ le32 (checksum h))"
  using assms
  by (simp add: name_memory_def serializeHeader_def offsets length_le32 length_le16
      MAX_FILENAME_LENGTH_def comp_def byte_char_char_byte)

lemma c_str_filename_createHeader:
  assumes "CHR 0x00 \<notin> set (extractFilename p)"
  shows "c_str (name_memory (serializeHeader pad1 pad2 (createHeader p n)))
           = Inr (take 255 (extractFilename p))"
proof -
  define fname where "fname = extractFilename p"
  define len where "len = min (length fname) 255"
  have nn: "\<forall>c\<in>set fname. c \<noteq> CHR 0x00"
    using assms by (auto simp add: fname_def)
  then have tw: "takeWhile (\<lambda>c. c \<noteq> CHR 0x00) fname = fname"
    by (simp only: takeWhile_eq_all_conv)
  have lt: "length (take len fname) = len"
    by (simp add: len_def)
  have len255: "len \<le> 255" by (simp add: len_def)
  have mn: "min (length fname) len = len" by (simp add: len_def)
  have f: "filename (createHeader p n)
             = (take len fname @ replicate (256 - len) (CHR 0x00)) [len := CHR 0x00]"
    using len255
    by (simp add: createHeader_def Let_def StegoHeader_init_def MAX_FILENAME_LENGTH_def
        strncpy_def unat_of_nat fname_def [symmetric] len_def [symmetric] tw lt mn
        replicate_add [symmetric])
  have "(take len fname @ replicate (256 - len) (CHR 0x00)) ! len = CHR 0x00"
    using len255 lt by (simp add: nth_append)
  then have "(take len fname @ replicate (256 - len) (CHR 0x00)) [len := CHR 0x00]
          = take len fname @ replicate (256 - len) (CHR 0x00)"
    by (metis list_update_id)
  then have g: "filename (createHeader p n) = take len fname @ replicate (256 - len) (CHR 0x00)"
    using f by simp
  have "\<forall>c\<in>set (take len fname). c \<noteq> CHR 0x00"
    using nn by (auto dest: in_set_takeD)
  moreover have "replicate (256 - len) (CHR 0x00) = CHR 0x00 # replicate (255 - len) (CHR 0x00)"
    using len255 by (simp add: replicate_Suc [symmetric] Suc_diff_le del: replicate_Suc)
  ultimately have tw2: "takeWhile (\<lambda>c. c \<noteq> CHR 0x00) (filename (createHeader p n) @ rest)
                          = take len fname" for rest
    by (simp add: g takeWhile_append2)
  have nulin: "CHR 0x00 \<in> set (filename (createHeader p n))"
    using len255 by (simp add: g)
  have "name_memory (serializeHeader pad1 pad2 (createHeader p n))
          = filename (createHeader p n) @ map byte_char (le16 pad2 @ le32 (checksum (createHeader p n)))"
    by (rule name_memory_serializeHeader) (rule length_filename_createHeader)
  then have "c_str (name_memory (serializeHeader pad1 pad2 (createHeader p n)))
               = Inr (take len fname)"
    using nulin by (simp add: c_str_def tw2)
  then show ?thesis
    by (simp add: len_def fname_def min_def)
qed

lemma extractHidden_embedded:
  assumes host: "1 \<le> length hostData"
      and fit: "length hiddenData < 2 ^ 32"
      and last: "\<forall>j. length hostData < j \<and> j \<le> length hostData + length hiddenData \<longrightarrow>
                   \<not> probe (hostData @ serializeHeader pad1 pad2
                                          (createHeader p (length hiddenData)) @ hiddenData) j"
  shows "extractHidden (hostData @ serializeHeader pad1 pad2
                                      (createHeader p (length hiddenData)) @ hiddenData)
           = Inr (length hostData, createHeader p (length hiddenData), hiddenData)"
proof -
  define h where "h = createHeader p (length hiddenData)"
  define stego where "stego = hostData @ serializeHeader pad1 pad2 h @ hiddenData"
  have lf: "length (filename h) = MAX_FILENAME_LENGTH"
    by (simp add: h_def length_filename_createHeader)
  have ls: "length (serializeHeader pad1 pad2 h) = 276"
    by (simp add: h_def length_serialized_created)
  have len: "length stego = length hostData + 276 + length hiddenData"
    by (simp add: stego_def ls)
  have le: "sizeof_StegoHeader \<le> length stego"
    by (simp add: len sizeof_StegoHeader_eq)
  have n: "length stego - sizeof_StegoHeader = length hostData + length hiddenData"
    by (simp add: len sizeof_StegoHeader_eq)
  have nb: "(length hostData + length hiddenData) + sizeof_StegoHeader \<le> length stego"
    by (simp add: len sizeof_StegoHeader_eq)
  have pr: "probe stego (length hostData)"
    unfolding stego_def using lf validate_createHeader [of p "length hiddenData"]
    by (intro probe_at_header) (simp_all add: h_def)
  have sc: "scan stego (length stego - sizeof_StegoHeader) = Inr (Some (length hostData))"
    unfolding n scan_Some_iff [OF nb]
    using host pr last by (simp add: stego_def h_def)
  have w: "deserializeHeader (window stego (length hostData)) = Inr h"
    unfolding stego_def window_at_header [OF lf]
    using deserialize_serialize [OF lf, of pad1 pad2 "[]"] by simp
  have sz: "unat (hiddenFileSize h) = length hiddenData"
    using fit by (simp add: h_def hiddenFileSize_createHeader unat_of_nat)
  from extractHidden_Some [OF le sc] w
  have "extractHidden stego =
          (if length stego < length hostData + sizeof_StegoHeader + unat (hiddenFileSize h)
           then Inl (InvalidFormatException ''Corrupted file: size mismatch'')
           else Inr (length hostData, h, take (unat (hiddenFileSize h))
                               (drop (length hostData + sizeof_StegoHeader) stego)))"
    by auto
  moreover have "drop (length hostData + sizeof_StegoHeader) stego = hiddenData"
    by (simp add: stego_def sizeof_StegoHeader_eq ls)
  ultimately show ?thesis
    unfolding stego_def [symmetric] h_def [symmetric]
    by (simp add: sz len sizeof_StegoHeader_eq)
qed

lemma generateOutputFilename_nonempty: "generateOutputFilename u orig \<noteq> []"
  by (simp add: generateOutputFilename_def Let_def)

lemma extractFile_embedded:
  assumes ne: "stegoPath \<noteq> []"
      and c1: "contents fs1 stegoPath
                 = Some (hostData @ serializeHeader pad1 pad2
                                      (createHeader p (length hiddenData)) @ hiddenData)"
      and host: "1 \<le> length hostData"
      and fit: "length hiddenData < 2 ^ 32"
      and nul: "CHR 0x00 \<notin> set (extractFilename p)"
      and last: "\<forall>j. length hostData < j \<and> j \<le> length hostData + length hiddenData \<longrightarrow>
                   \<not> probe (hostData @ serializeHeader pad1 pad2
                               (createHeader p (length hiddenData)) @ hiddenData) j"
      and wr2: "creatable fs1 (generateOutputFilename extractPath (take 255 (extractFilename p)))"
               "\<not> write_fails fs1 (generateOutputFilename extractPath
                                       (take 255 (extractFilename p)))"
      and rd: "\<not> read_fails fs1 stegoPath"
  shows "extractFile fs1 stegoPath extractPath
          = Inr (fs1 \<lparr> contents := (contents fs1)
                         (generateOutputFilename extractPath
                            (take 255 (extractFilename p)) \<mapsto> hiddenData) \<rparr>,
                 generateOutputFilename extractPath (take 255 (extractFilename p)),
                 take 255 (extractFilename p))"
  unfolding extractFile_accessible [OF ne c1 rd] extractHidden_embedded [OF host fit last]
  using wr2
  by (simp add: window_at_header [OF length_filename_createHeader]
      c_str_filename_createHeader [OF nul] writeFile_def)

text \<open>
  C1, with the conditions the round trip needs. Let the host have at least
  \<open>MIN_HOST_SIZE\<close> bytes and the hidden file at most the capacity, and both be
  accessible and the outputs creatable. If moreover the hidden file is shorter than
  \<open>2 ^ 32\<close> bytes, no window of the output that starts after the first byte of the
  appended header, inside that header or in the hidden bytes, is itself a valid header,
  and the final component of the hidden path holds no NUL, then
  \<open>hideFile\<close> succeeds, and \<open>extractFile\<close> on its output succeeds, writes exactly the
  hidden bytes and reports as original name the final component of the hidden path cut
  to 255 bytes.
\<close>

theorem round_trip:
  assumes acc: "hiddenFilePath \<noteq> []" "hostFilePath \<noteq> []"
               "contents fs hostFilePath = Some hostData"
               "contents fs hiddenFilePath = Some hiddenData"
               "\<not> read_fails fs hostFilePath" "\<not> read_fails fs hiddenFilePath"
      and sizes: "MIN_HOST_SIZE \<le> length hostData"
                 "length hiddenData \<le> scaledHostSize (length hostData) - sizeof_StegoHeader"
      and fit: "length hiddenData < 2 ^ 32"
      and nul: "CHR 0x00 \<notin> set (extractFilename hiddenFilePath)"
      and last: "\<forall>j. length hostData < j \<and> j \<le> length hostData + length hiddenData \<longrightarrow>
                   \<not> probe (hostData @ serializeHeader pad1 pad2
                               (createHeader hiddenFilePath (length hiddenData)) @ hiddenData) j"
      and wr1: "creatable fs (generateOutputFilename outputFilePath (extractFilename hostFilePath))"
               "\<not> write_fails fs (generateOutputFilename outputFilePath
                                      (extractFilename hostFilePath))"
               "\<not> read_fails fs (generateOutputFilename outputFilePath
                                     (extractFilename hostFilePath))"
      and wr2: "creatable fs (generateOutputFilename extractPath
                                (take 255 (extractFilename hiddenFilePath)))"
               "\<not> write_fails fs (generateOutputFilename extractPath
                                      (take 255 (extractFilename hiddenFilePath)))"
  shows "hideFile pad1 pad2 fs hiddenFilePath hostFilePath outputFilePath
           = Inr (fs \<lparr> contents := (contents fs)
                        (generateOutputFilename outputFilePath (extractFilename hostFilePath) \<mapsto>
                           hostData @ serializeHeader pad1 pad2
                             (createHeader hiddenFilePath (length hiddenData)) @ hiddenData) \<rparr>,
                  generateOutputFilename outputFilePath (extractFilename hostFilePath))
       \<and> extractFile
             (fs \<lparr> contents := (contents fs)
                        (generateOutputFilename outputFilePath (extractFilename hostFilePath) \<mapsto>
                           hostData @ serializeHeader pad1 pad2
                             (createHeader hiddenFilePath (length hiddenData)) @ hiddenData) \<rparr>)
             (generateOutputFilename outputFilePath (extractFilename hostFilePath)) extractPath
           = Inr (fs \<lparr> contents := (contents fs)
                        (generateOutputFilename outputFilePath (extractFilename hostFilePath) \<mapsto>
                           hostData @ serializeHeader pad1 pad2
                             (createHeader hiddenFilePath (length hiddenData)) @ hiddenData,
                         generateOutputFilename extractPath
                           (take 255 (extractFilename hiddenFilePath)) \<mapsto> hiddenData) \<rparr>,
                  generateOutputFilename extractPath (take 255 (extractFilename hiddenFilePath)),
                  take 255 (extractFilename hiddenFilePath))"
proof -
  define stegoPath where
    "stegoPath = generateOutputFilename outputFilePath (extractFilename hostFilePath)"
  define stego where
    "stego = hostData @ serializeHeader pad1 pad2
                          (createHeader hiddenFilePath (length hiddenData)) @ hiddenData"
  define fs1 where "fs1 = fs \<lparr> contents := (contents fs) (stegoPath \<mapsto> stego) \<rparr>"
  have emb: "hideFile pad1 pad2 fs hiddenFilePath hostFilePath outputFilePath = Inr (fs1, stegoPath)"
    unfolding hideFile_Inr_iff
    using acc sizes wr1 by (simp add: fs1_def stegoPath_def stego_def)
  have host1: "1 \<le> length hostData"
    using sizes(1) by (simp add: MIN_HOST_SIZE_def)
  have ne: "stegoPath \<noteq> []"
    by (simp add: stegoPath_def generateOutputFilename_nonempty)
  have c1: "contents fs1 stegoPath
              = Some (hostData @ serializeHeader pad1 pad2
                        (createHeader hiddenFilePath (length hiddenData)) @ hiddenData)"
    by (simp add: fs1_def stego_def)
  have wr2': "creatable fs1 (generateOutputFilename extractPath
                                (take 255 (extractFilename hiddenFilePath)))"
             "\<not> write_fails fs1 (generateOutputFilename extractPath
                                     (take 255 (extractFilename hiddenFilePath)))"
    using wr2 by (simp_all add: fs1_def)
  have rd: "\<not> read_fails fs1 stegoPath"
    using wr1(3) by (simp add: fs1_def stegoPath_def)
  have "extractFile fs1 stegoPath extractPath
          = Inr (fs1 \<lparr> contents := (contents fs1)
                         (generateOutputFilename extractPath
                            (take 255 (extractFilename hiddenFilePath)) \<mapsto> hiddenData) \<rparr>,
                 generateOutputFilename extractPath (take 255 (extractFilename hiddenFilePath)),
                 take 255 (extractFilename hiddenFilePath))"
    using ne c1 host1 fit nul last wr2' rd by (rule extractFile_embedded)
  with emb show ?thesis
    by (simp add: fs1_def stegoPath_def stego_def)
qed

lemma serialized_prefix:
  "take 6 (serializeHeader pad1 pad2 (createHeader p n)) = [0x4E, 0x45, 0x54, 0x53, 0x01, 0x00]"
  by (simp add: serializeHeader_def le32_def le16_def magic_createHeader MAGIC_SIGNATURE_def
      createHeader_def Let_def StegoHeader_init_def VERSION_def drop_bit_eq_div)

lemma scenario_no_decoy:
  "\<forall>j. length (replicate 20000 (0::byte)) < j
        \<and> j \<le> length (replicate 20000 (0::byte)) + length hello \<longrightarrow>
       \<not> probe (replicate 20000 0 @ serializeHeader 0 0 (createHeader ''hello.txt'' (length hello))
                  @ hello) j"
proof (intro allI impI)
  fix j
  let ?ser = "serializeHeader 0 0 (createHeader ''hello.txt'' (length hello))"
  let ?stego = "replicate 20000 0 @ ?ser @ hello"
  assume "length (replicate 20000 (0::byte)) < j
        \<and> j \<le> length (replicate 20000 (0::byte)) + length hello"
  then have j: "20000 < j" "j \<le> 20005" by (simp_all add: length_hello)
  define i where "i = j - 20000"
  have i: "1 \<le> i" "i \<le> 5" "j = 20000 + i" using j by (simp_all add: i_def)
  have ls: "length ?ser = 276" by (rule length_serialized_created)
  have "?stego ! j = ?ser ! i"
    using i ls by (simp add: nth_append)
  also have "\<dots> = take 6 ?ser ! i"
    using i by simp
  also have "\<dots> = [0x4E, 0x45, 0x54, 0x53, 0x01, 0x00] ! i"
    by (simp only: serialized_prefix)
  finally have b: "?stego ! j = [0x4E, 0x45, 0x54, 0x53, 0x01, 0x00] ! i" .
  have "i = 1 \<or> i = 2 \<or> i = 3 \<or> i = 4 \<or> i = 5" using i(1,2) by arith
  then have "?stego ! j \<noteq> 0x4E"
    unfolding b by (elim disjE) simp_all
  moreover have "j + sizeof_StegoHeader \<le> length ?stego"
    using j ls by (simp add: sizeof_StegoHeader_eq length_hello)
  ultimately show "\<not> probe ?stego j"
    using probe_first_byte [of ?stego j] by blast
qed


theorem round_trip_witness:
  "contents scenario_fs ''host.bin'' = Some (replicate 20000 0)
   \<and> contents scenario_fs ''hello.txt'' = Some hello
   \<and> MIN_HOST_SIZE \<le> length (replicate 20000 (0::byte))
   \<and> length hello \<le> scaledHostSize (length (replicate 20000 (0::byte))) - sizeof_StegoHeader
   \<and> hideFile 0 0 scenario_fs ''hello.txt'' ''host.bin'' ''out.bin''
       = Inr (scenario_fs_embedded, ''out.bin'')
   \<and> extractFile scenario_fs_embedded ''out.bin'' ''back''
       = Inr (scenario_fs_extracted, ''back.txt'', ''hello.txt'')
   \<and> contents scenario_fs_extracted ''back.txt'' = Some hello"
proof -
  have acc: "''hello.txt'' \<noteq> []" "''host.bin'' \<noteq> []"
    "contents scenario_fs ''host.bin'' = Some (replicate 20000 0)"
    "contents scenario_fs ''hello.txt'' = Some hello"
    "\<not> read_fails scenario_fs ''host.bin''" "\<not> read_fails scenario_fs ''hello.txt''"
    by (simp_all add: scenario_fs_def)
  have sizes: "MIN_HOST_SIZE \<le> length (replicate 20000 (0::byte))"
    "length hello \<le> scaledHostSize (length (replicate 20000 (0::byte))) - sizeof_StegoHeader"
    by (simp_all add: MIN_HOST_SIZE_def length_hello scaledHostSize_20000 sizeof_StegoHeader_eq)
  have fit: "length hello < 2 ^ 32" by (simp add: length_hello)
  have nul: "CHR 0x00 \<notin> set (extractFilename ''hello.txt'')"
    by (simp add: extractFilename_def)
  have wr1: "creatable scenario_fs (generateOutputFilename ''out.bin'' (extractFilename ''host.bin''))"
    "\<not> write_fails scenario_fs (generateOutputFilename ''out.bin'' (extractFilename ''host.bin''))"
    "\<not> read_fails scenario_fs (generateOutputFilename ''out.bin'' (extractFilename ''host.bin''))"
    by (simp_all add: scenario_fs_def)
  have wr2: "creatable scenario_fs
               (generateOutputFilename ''back'' (take 255 (extractFilename ''hello.txt'')))"
    "\<not> write_fails scenario_fs
               (generateOutputFilename ''back'' (take 255 (extractFilename ''hello.txt'')))"
    by (simp_all add: scenario_fs_def)
  have g1: "generateOutputFilename ''out.bin'' (extractFilename ''host.bin'') = ''out.bin''"
    by (simp add: generateOutputFilename_def extractFilename_def)
  have g2: "generateOutputFilename ''back'' ''hello.txt'' = ''back.txt''"
    by (simp add: generateOutputFilename_def getExtension_def extractFilename_def tolower_def)
  have n: "take 255 (extractFilename ''hello.txt'') = ''hello.txt''"
    by (simp add: extractFilename_def)
  have e: "scenario_fs \<lparr> contents := (contents scenario_fs)
             (''out.bin'' \<mapsto> replicate 20000 0
                 @ serializeHeader 0 0 (createHeader ''hello.txt'' (length hello)) @ hello) \<rparr>
           = scenario_fs_embedded"
    by (simp add: scenario_fs_embedded_def scenario_stego_def length_hello)
  have x: "scenario_fs \<lparr> contents := (contents scenario_fs)
             (''out.bin'' \<mapsto> replicate 20000 0
                 @ serializeHeader 0 0 (createHeader ''hello.txt'' (length hello)) @ hello,
              ''back.txt'' \<mapsto> hello) \<rparr>
           = scenario_fs_extracted"
    by (simp add: scenario_fs_extracted_def scenario_fs_embedded_def scenario_stego_def
        length_hello)
  have c: "contents scenario_fs_extracted ''back.txt'' = Some hello"
    by (simp add: scenario_fs_extracted_def)
  from round_trip [OF acc sizes fit nul scenario_no_decoy wr1 wr2]
  have "hideFile 0 0 scenario_fs ''hello.txt'' ''host.bin'' ''out.bin''
       = Inr (scenario_fs_embedded, ''out.bin'')
   \<and> extractFile scenario_fs_embedded ''out.bin'' ''back''
       = Inr (scenario_fs_extracted, ''back.txt'', ''hello.txt'')"
    by (simp only: n g1 g2 e x)
  with acc(3,4) sizes c show ?thesis by blast
qed

lemma decoy_hideFile:
  "hideFile 0 0 decoy_fs ''secret.bin'' ''host.bin'' ''out.bin''
     = Inr (decoy_fs_embedded, ''out.bin'')"
  unfolding hideFile_Inr_iff
  by (simp add: decoy_fs_def decoy_fs_embedded_def decoy_stego_def decoy_payload_def
      length_serialized_created MIN_HOST_SIZE_def scaledHostSize_10240 sizeof_StegoHeader_eq
      generateOutputFilename_def extractFilename_def)

lemma decoy_extractFile:
  "extractFile decoy_fs_embedded ''out.bin'' ''back.bin''
     = Inr (decoy_fs_extracted, ''back.bin'', ''decoy.txt'')"
proof -
  let ?pre = "replicate 10240 0 @ serializeHeader 0 0 (createHeader ''secret.bin'' 276)"
  have ne: "''out.bin'' \<noteq> []" by simp
  have c1: "contents decoy_fs_embedded ''out.bin''
              = Some (?pre @ serializeHeader 0 0 (createHeader ''decoy.txt'' (length ([]::byte list)))
                      @ [])"
    by (simp add: decoy_fs_embedded_def decoy_stego_def decoy_payload_def)
  have host: "1 \<le> length ?pre" by simp
  have fit: "length ([]::byte list) < 2 ^ 32" by simp
  have nul: "CHR 0x00 \<notin> set (extractFilename ''decoy.txt'')"
    by (simp add: extractFilename_def)
  have last: "\<forall>j. length ?pre < j \<and> j \<le> length ?pre + length ([]::byte list) \<longrightarrow>
      \<not> probe (?pre @ serializeHeader 0 0 (createHeader ''decoy.txt'' (length ([]::byte list)))
                @ []) j"
    by auto
  have wr: "creatable decoy_fs_embedded
              (generateOutputFilename ''back.bin'' (take 255 (extractFilename ''decoy.txt'')))"
           "\<not> write_fails decoy_fs_embedded
              (generateOutputFilename ''back.bin'' (take 255 (extractFilename ''decoy.txt'')))"
           "\<not> read_fails decoy_fs_embedded ''out.bin''"
    by (simp_all add: decoy_fs_embedded_def decoy_fs_def)
  have g: "generateOutputFilename ''back.bin'' ''decoy.txt'' = ''back.bin''"
    by (simp add: generateOutputFilename_def extractFilename_def)
  have n: "take 255 (extractFilename ''decoy.txt'') = ''decoy.txt''"
    by (simp add: extractFilename_def)
  from extractFile_embedded [OF ne c1 host fit nul last wr]
  show ?thesis
    by (simp only: n g decoy_fs_extracted_def)
qed

theorem round_trip_decoy_counterexample:
  "contents decoy_fs ''host.bin'' = Some (replicate 10240 0)
   \<and> contents decoy_fs ''secret.bin'' = Some decoy_payload
   \<and> MIN_HOST_SIZE \<le> length (replicate 10240 (0::byte))
   \<and> validateAndCalculateMaxSize (length decoy_payload) (length (replicate 10240 (0::byte)))
       = Inr 8428
   \<and> hideFile 0 0 decoy_fs ''secret.bin'' ''host.bin'' ''out.bin''
       = Inr (decoy_fs_embedded, ''out.bin'')
   \<and> extractFile decoy_fs_embedded ''out.bin'' ''back.bin''
       = Inr (decoy_fs_extracted, ''back.bin'', ''decoy.txt'')
   \<and> contents decoy_fs_extracted ''back.bin'' = Some []
   \<and> decoy_payload \<noteq> []
   \<and> ''decoy.txt'' \<noteq> take 255 (extractFilename ''secret.bin'')"
proof -
  have a: "contents decoy_fs ''host.bin'' = Some (replicate 10240 0)"
    "contents decoy_fs ''secret.bin'' = Some decoy_payload"
    "contents decoy_fs_extracted ''back.bin'' = Some []"
    by (simp_all add: decoy_fs_def decoy_fs_extracted_def)
  have m: "MIN_HOST_SIZE \<le> length (replicate 10240 (0::byte))"
    by (simp add: MIN_HOST_SIZE_def)
  have lp: "length decoy_payload = 276"
    by (simp add: decoy_payload_def length_serialized_created)
  have v: "validateAndCalculateMaxSize (length decoy_payload) (length (replicate 10240 (0::byte)))
       = Inr 8428"
    using m by (simp add: validateAndCalculateMaxSize_large lp scaledHostSize_10240
        sizeof_StegoHeader_eq)
  have p: "decoy_payload \<noteq> []" using lp by auto
  have f: "''decoy.txt'' \<noteq> take 255 (extractFilename ''secret.bin'')"
    by (simp add: extractFilename_def)
  from a m v decoy_hideFile decoy_extractFile p f show ?thesis by blast
qed

text \<open>
  A valid window can also start inside the appended header: with a hidden file named
  \<^verbatim>\<open>NETS\<close> the name field begins with the magic, and the window that starts there takes
  its checksum word from the hidden bytes. This is why the round trip asks for no valid
  window at any index above the header's offset.
\<close>

lemma list_update_replicate_same: "(replicate n x) [i := x] = replicate n x"
  by (induction n arbitrary: i) (auto split: nat.splits)

lemma nets_window:
  "window nets_stego 10254
     = le32 MAGIC_SIGNATURE @ replicate 252 0 @ [0, 0]
       @ le32 (checksum (createHeader ''NETS'' 14)) @ map char_byte ''0123456789'' @ le32 MAGIC_SIGNATURE"
proof -
  have f: "filename (createHeader ''NETS'' 14) = ''NETS'' @ replicate 252 (CHR 0x00)"
    by (simp add: createHeader_def Let_def StegoHeader_init_def MAX_FILENAME_LENGTH_def
        strncpy_def extractFilename_def unat_of_nat replicate_add [symmetric]
        list_update_replicate_same)
  have m: "map char_byte ''NETS'' = le32 MAGIC_SIGNATURE"
    by (simp add: char_byte_def le32_def MAGIC_SIGNATURE_def drop_bit_eq_div)
  have z: "char_byte (CHR 0x00) = 0"
    by (simp add: char_byte_def)
  have d14: "drop 14 (serializeHeader 0 0 (createHeader ''NETS'' 14))
          = le32 MAGIC_SIGNATURE @ replicate 252 0 @ [0, 0]
            @ le32 (checksum (createHeader ''NETS'' 14))"
    by (simp add: serializeHeader_def length_le32 length_le16 f m [symmetric] z le16_def)
  have pay: "nets_payload = map char_byte ''0123456789'' @ le32 MAGIC_SIGNATURE"
    by (simp add: nets_payload_def m [symmetric])
  have ls: "length (serializeHeader 0 0 (createHeader ''NETS'' 14)) = 276"
    by (rule length_serialized_created)
  have lp: "length nets_payload = 14"
    by (simp add: nets_payload_def)
  have "window nets_stego 10254
          = drop 14 (serializeHeader 0 0 (createHeader ''NETS'' 14)) @ nets_payload"
    by (simp add: window_def nets_stego_def sizeof_StegoHeader_eq ls lp)
  then show ?thesis
    by (simp only: d14 pay append_assoc)
qed

lemma nets_probe:
  "length (replicate 10240 (0::byte)) < 10254
   \<and> 10254 < length (replicate 10240 (0::byte)) + sizeof_StegoHeader
   \<and> probe nets_stego 10254"
proof -
  let ?w = "window nets_stego 10254"
  have len: "length ?w = 276"
    by (simp add: nets_window length_le32)
  have mg: "rd32 (drop offset_magic ?w) = MAGIC_SIGNATURE"
    by (simp add: offsets nets_window rd32_le32)
  have vs: "rd16 (drop offset_version ?w) = 0"
    by (simp add: offsets nets_window length_le32 rd16_def nth_append)
  have sz: "rd32 (drop offset_hiddenFileSize ?w) = 0"
    by (simp add: offsets nets_window length_le32 rd32_def nth_append)
  have fl: "rd16 (drop offset_filenameLength ?w) = 0"
    by (simp add: offsets nets_window length_le32 rd16_def nth_append)
  have ck: "rd32 (drop offset_checksum ?w) = MAGIC_SIGNATURE"
    by (simp add: offsets nets_window length_le32 rd32_le32 [of _ "[]", simplified])
  have "probe nets_stego 10254"
    unfolding probe_def deserializeHeader_def mg vs sz fl ck
    by (simp add: len sizeof_StegoHeader_eq validate_def calculateChecksum_def)
  then show ?thesis
    by (simp add: sizeof_StegoHeader_eq)
qed




lemma find_last_of_append:
  "find_last_of (xs @ ys) cs =
     (case find_last_of ys cs of
        Some p \<Rightarrow> Some (length xs + p)
      | None \<Rightarrow> find_last_of xs cs)"
  by (induction xs) (auto split: option.splits)








end
